theory Spec2Isabelle
  imports Main "HOL-Library.Sublist" "HOL-Library.Char_ord" "HOL-Library.List_Lexorder"
begin

section \<open>The controller's responses\<close>

text \<open>
  The controller answers every read with a JSON object
  \<^verbatim>\<open>{"totalCount": "1", "imdata": [{"fvTenant": {"attributes": {"name": "T1", ...}}}, ...]}\<close>.
  Every attribute value of the controller's object model is a JSON string, and the analyzer
  passes the \<^verbatim>\<open>dn\<close> and \<^verbatim>\<open>tDn\<close> attributes on as \<^verbatim>\<open>str\<close> arguments, so an attribute
  dictionary maps strings to strings. A dictionary is a partial map; a key that the code
  subscripts and that is absent raises \<^verbatim>\<open>KeyError\<close>.

  Strings are byte sequences in UTF-8. The order of \<^verbatim>\<open>str\<close> in Python is the lexicographic
  order of code points, which on UTF-8 is the lexicographic order of bytes, and a substring of
  code points is a substring of bytes; so \<open>(\<le>)\<close> on \<^typ>\<open>string\<close> is Python's order and
  \<open>str_in\<close> below is Python's \<^verbatim>\<open>in\<close> on two strings.
\<close>

type_synonym attrs = "string \<rightharpoonup> string"

text \<open>The object under a class key: \<^verbatim>\<open>{"attributes": {...}}\<close>.\<close>

type_synonym mo = "string \<rightharpoonup> attrs"

text \<open>One element of \<^verbatim>\<open>imdata\<close>: \<^verbatim>\<open>{"<ClassName>": {...}}\<close>.\<close>

type_synonym item = "string \<rightharpoonup> mo"

text \<open>
  The response object. Of its members the code reads \<^verbatim>\<open>imdata\<close> only; the names of the
  other members matter to the test \<^verbatim>\<open>not data\<close> alone, which holds of the empty object.
\<close>

record response =
  imdata :: "item list option"
  other_keys :: "string list"

text \<open>
  What \<^verbatim>\<open>ACISession.get\<close> returns for a path: the parsed response, or \<^verbatim>\<open>None\<close> on a
  status other than 200 and on every exception of the transport.
\<close>

type_synonym api = "string \<Rightarrow> response option"

section \<open>The dictionaries the analyzer builds\<close>

text \<open>\<^verbatim>\<open>{"name": ..., "dn": ...}\<close>: a VRF or a contract.\<close>

record entity =
  name :: string
  dn :: string

text \<open>\<^verbatim>\<open>{"name": ..., "dn": ..., "vrfs": [...]}\<close>\<close>

record tenant = entity +
  vrfs :: "entity list"

text \<open>
  \<^verbatim>\<open>{"ip": ..., "description": ..., "type": ...}\<close>. The key \<^verbatim>\<open>type\<close> is \<open>subnet_type\<close> here
  and \<open>epg_type\<close> in an EPG; its values are the strings of the source.
\<close>

record subnet =
  ip :: string
  description :: string
  subnet_type :: string

text \<open>\<^verbatim>\<open>{"name": ..., "type": ..., "dn": ..., "subnets": [...]}\<close>\<close>

record epg = entity +
  epg_type :: string
  subnets :: "subnet list"

text \<open>\<^verbatim>\<open>stats = {"contracts": 0, "providers": 0, "consumers": 0}\<close>; the three counters only grow.\<close>

record stats =
  stat_contracts :: nat
  stat_providers :: nat
  stat_consumers :: nat

section \<open>Effects\<close>

text \<open>
  A run is observed through the requests it sends and the parts of the report it writes, in
  the order in which they happen. The layout of the report's text (column widths, truncation,
  glyphs) is not modelled: a write is recorded with the data it renders. An exception ends the
  run where it is raised; nothing in the source catches one.
\<close>

datatype py_error = KeyError string

datatype report_entry =
  Header
  | TenantHeader tenant
  | ContractDetails entity "epg list" "epg list"
  | Summary nat stats

datatype event = Get string | Write report_entry

type_synonym 'a io = "(py_error + 'a) \<times> event list"

definition returnM :: "'a \<Rightarrow> 'a io" where
  "returnM x = (Inr x, [])"

definition raise :: "py_error \<Rightarrow> 'a io" where
  "raise e = (Inl e, [])"

definition bindM :: "'a io \<Rightarrow> ('a \<Rightarrow> 'b io) \<Rightarrow> 'b io" where
  "bindM m f =
     (case m of
        (Inl e, tr) \<Rightarrow> (Inl e, tr)
      | (Inr x, tr) \<Rightarrow> (case f x of (r, tr') \<Rightarrow> (r, tr @ tr')))"

definition session_get :: "api \<Rightarrow> string \<Rightarrow> response option io" where
  "session_get api url_path = (Inr (api url_path), [Get url_path])"

definition f_write :: "report_entry \<Rightarrow> unit io" where
  "f_write e = (Inr (), [Write e])"

fun mapM :: "('a \<Rightarrow> 'b io) \<Rightarrow> 'a list \<Rightarrow> 'b list io" where
  "mapM f [] = returnM []"
| "mapM f (x # xs) = bindM (f x) (\<lambda>y. bindM (mapM f xs) (\<lambda>ys. returnM (y # ys)))"

section \<open>Python's operations on the responses\<close>

text \<open>\<^verbatim>\<open>d[k]\<close>\<close>

definition getitem :: "(string \<rightharpoonup> 'v) \<Rightarrow> string \<Rightarrow> 'v io" where
  "getitem d k = (case d k of None \<Rightarrow> raise (KeyError k) | Some v \<Rightarrow> returnM v)"

text \<open>\<^verbatim>\<open>d.get(k, default)\<close>\<close>

definition get_default :: "(string \<rightharpoonup> 'v) \<Rightarrow> string \<Rightarrow> 'v \<Rightarrow> 'v" where
  "get_default d k dflt = (case d k of None \<Rightarrow> dflt | Some v \<Rightarrow> v)"

text \<open>\<^verbatim>\<open>item[cls]["attributes"]\<close> and \<^verbatim>\<open>item[cls]["attributes"][k]\<close>\<close>

definition attributes :: "item \<Rightarrow> string \<Rightarrow> attrs io" where
  "attributes item cls = bindM (getitem item cls) (\<lambda>obj. getitem obj ''attributes'')"

definition attribute :: "item \<Rightarrow> string \<Rightarrow> string \<Rightarrow> string io" where
  "attribute item cls k = bindM (attributes item cls) (\<lambda>a. getitem a k)"

text \<open>
  \<^verbatim>\<open>not data\<close> holds of \<^verbatim>\<open>None\<close> and of the empty object \<^verbatim>\<open>{}\<close>; the functions below
  take the two cases apart with \<open>case\<close> and \<open>empty_object\<close>.
\<close>

definition empty_object :: "response \<Rightarrow> bool" where
  "empty_object r = (imdata r = None \<and> other_keys r = [])"

text \<open>\<^verbatim>\<open>data.get("imdata", [])\<close> and \<^verbatim>\<open>not data.get("imdata")\<close>, for \<^verbatim>\<open>data\<close> an object.\<close>

definition imdata_or_empty :: "response \<Rightarrow> item list" where
  "imdata_or_empty r = (case imdata r of None \<Rightarrow> [] | Some xs \<Rightarrow> xs)"

definition not_imdata :: "response \<Rightarrow> bool" where
  "not_imdata r = (case imdata r of None \<Rightarrow> True | Some xs \<Rightarrow> xs = [])"

text \<open>\<^verbatim>\<open>sub in s\<close> on strings: \<open>sub\<close> occurs in \<open>s\<close> as a contiguous block.\<close>

fun str_in :: "string \<Rightarrow> string \<Rightarrow> bool" where
  "str_in sub [] = (sub = [])"
| "str_in sub (c # cs) = (prefix sub (c # cs) \<or> str_in sub cs)"

section \<open>ACIAnalyzer\<close>

definition EXCLUDED_TENANTS :: "string set" where
  "EXCLUDED_TENANTS = {''mgmt'', ''infra'', ''common''}"

definition children_url :: "string \<Rightarrow> string \<Rightarrow> string" where
  "children_url d cls =
     ''/node/mo/'' @ d @ ''.json?query-target=children&target-subtree-class='' @ cls"

definition object_url :: "string \<Rightarrow> string" where
  "object_url d = ''/node/mo/'' @ d @ ''.json''"

text \<open>
  The comprehension \<^verbatim>\<open>{"name": item[cls]["attributes"]["name"], "dn": item[cls]["attributes"]["dn"]}\<close>
  of \<^verbatim>\<open>_get_tenant_vrfs\<close> and \<^verbatim>\<open>get_contracts\<close>.
\<close>

definition name_dn :: "string \<Rightarrow> item \<Rightarrow> entity io" where
  "name_dn cls item =
     bindM (attribute item cls ''name'') (\<lambda>n.
     bindM (attribute item cls ''dn'') (\<lambda>d.
     returnM \<lparr>name = n, dn = d\<rparr>))"

definition get_tenant_vrfs :: "api \<Rightarrow> string \<Rightarrow> entity list io" where
  "get_tenant_vrfs api tenant_dn =
     bindM (session_get api (children_url tenant_dn ''fvCtx'')) (\<lambda>data.
     case data of
       None \<Rightarrow> returnM []
     | Some r \<Rightarrow>
         if empty_object r then returnM []
         else mapM (name_dn ''fvCtx'') (imdata_or_empty r))"

fun get_tenants_loop :: "api \<Rightarrow> item list \<Rightarrow> tenant list \<Rightarrow> tenant list io" where
  "get_tenants_loop api [] tenants = returnM tenants"
| "get_tenants_loop api (item # rest) tenants =
     bindM (attribute item ''fvTenant'' ''name'') (\<lambda>tenant_name.
     if tenant_name \<notin> EXCLUDED_TENANTS then
       bindM (attribute item ''fvTenant'' ''dn'') (\<lambda>tenant_dn.
       bindM (get_tenant_vrfs api tenant_dn) (\<lambda>vs.
       get_tenants_loop api rest
         (tenants @ [\<lparr>name = tenant_name, dn = tenant_dn, vrfs = vs\<rparr>])))
     else get_tenants_loop api rest tenants)"

definition get_tenants :: "api \<Rightarrow> tenant list io" where
  "get_tenants api =
     bindM (session_get api ''/node/class/fvTenant.json'') (\<lambda>data.
     case data of
       None \<Rightarrow> returnM []
     | Some r \<Rightarrow>
         if empty_object r then returnM []
         else bindM (get_tenants_loop api (imdata_or_empty r) []) (\<lambda>tenants.
              returnM (sort_key name tenants)))"

definition get_contracts :: "api \<Rightarrow> string \<Rightarrow> entity list io" where
  "get_contracts api tenant_dn =
     bindM (session_get api (children_url tenant_dn ''vzBrCP'')) (\<lambda>data.
     case data of
       None \<Rightarrow> returnM []
     | Some r \<Rightarrow>
         if empty_object r then returnM []
         else mapM (name_dn ''vzBrCP'') (imdata_or_empty r))"

text \<open>One element of the comprehension of \<^verbatim>\<open>_get_internal_subnets\<close>.\<close>

definition internal_subnet :: "item \<Rightarrow> subnet io" where
  "internal_subnet item =
     bindM (attribute item ''fvSubnet'' ''ip'') (\<lambda>i.
     bindM (attributes item ''fvSubnet'') (\<lambda>a.
     returnM \<lparr>ip = i, description = get_default a ''descr'' '''', subnet_type = ''internal''\<rparr>))"

definition get_internal_subnets :: "api \<Rightarrow> string \<Rightarrow> subnet list io" where
  "get_internal_subnets api epg_dn =
     bindM (session_get api (children_url epg_dn ''fvRsBd'')) (\<lambda>data.
     case data of
       None \<Rightarrow> returnM []
     | Some r \<Rightarrow>
         if empty_object r \<or> not_imdata r then returnM []
         else
           bindM (attribute (hd (imdata_or_empty r)) ''fvRsBd'' ''tDn'') (\<lambda>bd_dn.
           bindM (session_get api (children_url bd_dn ''fvSubnet'')) (\<lambda>subnet_data.
           case subnet_data of
             None \<Rightarrow> returnM []
           | Some sr \<Rightarrow>
               if empty_object sr \<or> not_imdata sr then returnM []
               else mapM internal_subnet (imdata_or_empty sr))))"

text \<open>The body of the loop of \<^verbatim>\<open>_get_external_subnets\<close>.\<close>

definition external_subnet :: "item \<Rightarrow> subnet io" where
  "external_subnet item =
     bindM (attributes item ''l3extSubnet'') (\<lambda>subnet_attrs.
     let scope = get_default subnet_attrs ''scope'' '''';
         subnet_type = (if str_in ''export-rtctrl'' scope then ''exp'' else ''ext'')
     in bindM (getitem subnet_attrs ''ip'') (\<lambda>i.
        returnM \<lparr>ip = i, description = get_default subnet_attrs ''name'' '''',
                 subnet_type = subnet_type\<rparr>))"

definition get_external_subnets :: "api \<Rightarrow> string \<Rightarrow> subnet list io" where
  "get_external_subnets api ext_epg_dn =
     bindM (session_get api (children_url ext_epg_dn ''l3extSubnet'')) (\<lambda>data.
     case data of
       None \<Rightarrow> returnM []
     | Some r \<Rightarrow>
         if empty_object r \<or> not_imdata r then returnM []
         else mapM external_subnet (imdata_or_empty r))"

definition get_external_epg_info :: "api \<Rightarrow> string \<Rightarrow> epg option io" where
  "get_external_epg_info api epg_dn =
     bindM (session_get api (object_url epg_dn)) (\<lambda>data.
     case data of
       None \<Rightarrow> returnM None
     | Some r \<Rightarrow>
         if empty_object r \<or> not_imdata r then returnM None
         else
           bindM (attributes (hd (imdata_or_empty r)) ''l3extInstP'') (\<lambda>epg_data.
           bindM (get_external_subnets api epg_dn) (\<lambda>sn.
           bindM (getitem epg_data ''name'') (\<lambda>n.
           returnM (Some \<lparr>name = n, dn = epg_dn, epg_type = ''external'', subnets = sn\<rparr>)))))"

definition get_internal_epg_info :: "api \<Rightarrow> string \<Rightarrow> epg option io" where
  "get_internal_epg_info api epg_dn =
     bindM (session_get api (object_url epg_dn)) (\<lambda>data.
     case data of
       None \<Rightarrow> returnM None
     | Some r \<Rightarrow>
         if empty_object r \<or> not_imdata r then returnM None
         else
           bindM (attributes (hd (imdata_or_empty r)) ''fvAEPg'') (\<lambda>epg_data.
           bindM (get_internal_subnets api epg_dn) (\<lambda>sn.
           bindM (getitem epg_data ''name'') (\<lambda>n.
           returnM (Some \<lparr>name = n, dn = epg_dn, epg_type = ''internal'', subnets = sn\<rparr>)))))"

definition get_epg_info :: "api \<Rightarrow> string \<Rightarrow> epg option io" where
  "get_epg_info api epg_dn =
     (if str_in ''/out-'' epg_dn then get_external_epg_info api epg_dn
      else get_internal_epg_info api epg_dn)"

text \<open>
  The loop of \<^verbatim>\<open>get_contract_relationships\<close>. The dictionary an EPG resolves to is never
  empty, so \<^verbatim>\<open>if epg_info:\<close> tests for \<^verbatim>\<open>None\<close>.
\<close>

fun relationships_loop ::
  "api \<Rightarrow> item list \<Rightarrow> epg list \<Rightarrow> epg list \<Rightarrow> (epg list \<times> epg list) io" where
  "relationships_loop api [] ps cs = returnM (ps, cs)"
| "relationships_loop api (item # rest) ps cs =
     (if item ''vzRtProv'' \<noteq> None then
        bindM (attribute item ''vzRtProv'' ''tDn'') (\<lambda>target_dn.
        bindM (get_epg_info api target_dn) (\<lambda>epg_info.
        case epg_info of
          Some e \<Rightarrow> relationships_loop api rest (ps @ [e]) cs
        | None \<Rightarrow> relationships_loop api rest ps cs))
      else if item ''vzRtCons'' \<noteq> None then
        bindM (attribute item ''vzRtCons'' ''tDn'') (\<lambda>target_dn.
        bindM (get_epg_info api target_dn) (\<lambda>epg_info.
        case epg_info of
          Some e \<Rightarrow> relationships_loop api rest ps (cs @ [e])
        | None \<Rightarrow> relationships_loop api rest ps cs))
      else relationships_loop api rest ps cs)"

definition get_contract_relationships :: "api \<Rightarrow> string \<Rightarrow> (epg list \<times> epg list) io" where
  "get_contract_relationships api contract_dn =
     bindM (session_get api (children_url contract_dn ''vzRtProv,vzRtCons'')) (\<lambda>data.
     case data of
       None \<Rightarrow> returnM ([], [])
     | Some r \<Rightarrow>
         if empty_object r then returnM ([], [])
         else relationships_loop api (imdata_or_empty r) [] [])"

section \<open>ReportGenerator\<close>

text \<open>
  The loop of \<^verbatim>\<open>_write_tenant_section\<close> over the contracts, already sorted. The counters are
  a dictionary that the source updates in place; here the loop returns them.
\<close>

fun write_contracts_loop :: "api \<Rightarrow> entity list \<Rightarrow> stats \<Rightarrow> stats io" where
  "write_contracts_loop api [] st = returnM st"
| "write_contracts_loop api (contract # rest) st =
     bindM (get_contract_relationships api (dn contract)) (\<lambda>(ps, cs).
     if ps = [] \<and> cs = [] then write_contracts_loop api rest st
     else
       let st' = st\<lparr>stat_providers := stat_providers st + length ps,
                      stat_consumers := stat_consumers st + length cs\<rparr>
       in bindM (f_write (ContractDetails contract ps cs)) (\<lambda>_.
          write_contracts_loop api rest st'))"

definition write_tenant_section :: "api \<Rightarrow> tenant \<Rightarrow> entity list \<Rightarrow> stats \<Rightarrow> stats io" where
  "write_tenant_section api t contracts st =
     bindM (f_write (TenantHeader t)) (\<lambda>_.
     write_contracts_loop api (sort_key name contracts) st)"

text \<open>The loop of \<^verbatim>\<open>generate_complete_report\<close> over the tenants.\<close>

fun tenants_loop :: "api \<Rightarrow> tenant list \<Rightarrow> stats \<Rightarrow> stats io" where
  "tenants_loop api [] st = returnM st"
| "tenants_loop api (t # rest) st =
     bindM (get_contracts api (dn t)) (\<lambda>contracts.
     if contracts = [] then tenants_loop api rest st
     else
       bindM (write_tenant_section api t contracts
                (st\<lparr>stat_contracts := stat_contracts st + length contracts\<rparr>)) (\<lambda>st'.
       tenants_loop api rest st'))"

text \<open>
  The comprehension \<^verbatim>\<open>[t for t in tenants if self.analyzer.get_contracts(t['dn'])]\<close> of
  \<^verbatim>\<open>_write_summary\<close>.
\<close>

fun tenants_with_contracts :: "api \<Rightarrow> tenant list \<Rightarrow> tenant list io" where
  "tenants_with_contracts api [] = returnM []"
| "tenants_with_contracts api (t # rest) =
     bindM (get_contracts api (dn t)) (\<lambda>contracts.
     bindM (tenants_with_contracts api rest) (\<lambda>ts.
     returnM (if contracts \<noteq> [] then t # ts else ts)))"

definition write_summary :: "api \<Rightarrow> tenant list \<Rightarrow> stats \<Rightarrow> unit io" where
  "write_summary api tenants st =
     bindM (tenants_with_contracts api tenants) (\<lambda>ts.
     f_write (Summary (length ts) st))"

definition generate_complete_report :: "api \<Rightarrow> unit io" where
  "generate_complete_report api =
     bindM (get_tenants api) (\<lambda>tenants.
     bindM (f_write Header) (\<lambda>_.
     bindM (tenants_loop api tenants
              \<lparr>stat_contracts = 0, stat_providers = 0, stat_consumers = 0\<rparr>) (\<lambda>st.
     write_summary api tenants st)))"

text \<open>
  The same run when the controller's objects change between the loop over the tenants and
  \<^verbatim>\<open>_write_summary\<close>: \<open>api\<close> answers the requests up to the end of the loop, \<open>api'\<close> those of
  \<^verbatim>\<open>_write_summary\<close>. With \<open>api' = api\<close> it is \<open>generate_complete_report api\<close>.
\<close>

definition generate_complete_report_changing :: "api \<Rightarrow> api \<Rightarrow> unit io" where
  "generate_complete_report_changing api api' =
     bindM (get_tenants api) (\<lambda>tenants.
     bindM (f_write Header) (\<lambda>_.
     bindM (tenants_loop api tenants
              \<lparr>stat_contracts = 0, stat_providers = 0, stat_consumers = 0\<rparr>) (\<lambda>st.
     write_summary api' tenants st)))"

section \<open>Reading a run\<close>

text \<open>
  The elements of \<^verbatim>\<open>imdata\<close> in what a request returned; none when the request returned
  \<^verbatim>\<open>None\<close> or an object without \<^verbatim>\<open>imdata\<close>.
\<close>

definition records :: "response option \<Rightarrow> item list" where
  "records data = (case data of None \<Rightarrow> [] | Some r \<Rightarrow> imdata_or_empty r)"

text \<open>A request for the Bridge-Domain relation of an EPG: the children of class \<^verbatim>\<open>fvRsBd\<close>.\<close>

definition bd_lookup :: "event \<Rightarrow> bool" where
  "bd_lookup ev =
     (case ev of Get u \<Rightarrow> suffix ''target-subtree-class=fvRsBd'' u | Write _ \<Rightarrow> False)"

text \<open>
  The tenant that one record of the tenant class contributes to the list, when its name is
  not excluded and everything the loop reads of it is there.
\<close>

definition tenant_of :: "api \<Rightarrow> item \<Rightarrow> tenant option" where
  "tenant_of api item =
     (case fst (attribute item ''fvTenant'' ''name'') of
        Inl _ \<Rightarrow> None
      | Inr n \<Rightarrow>
          if n \<in> EXCLUDED_TENANTS then None
          else (case fst (attribute item ''fvTenant'' ''dn'') of
                  Inl _ \<Rightarrow> None
                | Inr d \<Rightarrow>
                    (case fst (get_tenant_vrfs api d) of
                       Inl _ \<Rightarrow> None
                     | Inr vs \<Rightarrow> Some \<lparr>name = n, dn = d, vrfs = vs\<rparr>)))"

text \<open>
  What a relation record contributes to a list: the EPG its \<^verbatim>\<open>tDn\<close> resolves to, if any. A
  record with the key \<^verbatim>\<open>vzRtProv\<close> is a provider relation; a record without it and with the
  key \<^verbatim>\<open>vzRtCons\<close> is a consumer relation.
\<close>

definition resolved :: "api \<Rightarrow> string \<Rightarrow> item \<Rightarrow> epg option" where
  "resolved api cls item =
     (case fst (attribute item cls ''tDn'') of
        Inl _ \<Rightarrow> None
      | Inr target_dn \<Rightarrow>
          (case fst (get_epg_info api target_dn) of Inl _ \<Rightarrow> None | Inr r \<Rightarrow> r))"

definition provider_of :: "api \<Rightarrow> item \<Rightarrow> epg option" where
  "provider_of api item =
     (if item ''vzRtProv'' \<noteq> None then resolved api ''vzRtProv'' item else None)"

definition consumer_of :: "api \<Rightarrow> item \<Rightarrow> epg option" where
  "consumer_of api item =
     (if item ''vzRtProv'' = None \<and> item ''vzRtCons'' \<noteq> None
      then resolved api ''vzRtCons'' item else None)"

text \<open>The report: what a run has written, in order.\<close>

fun written :: "event list \<Rightarrow> report_entry list" where
  "written [] = []"
| "written (Get u # es) = written es"
| "written (Write e # es) = e # written es"

text \<open>
  The contracts the controller lists for a tenant, and the two lists a contract resolves to;
  both empty where the analyzer raises.
\<close>

definition contracts_of :: "api \<Rightarrow> tenant \<Rightarrow> entity list" where
  "contracts_of api t = (case fst (get_contracts api (dn t)) of Inl _ \<Rightarrow> [] | Inr cs \<Rightarrow> cs)"

definition relationships_of :: "api \<Rightarrow> entity \<Rightarrow> epg list \<times> epg list" where
  "relationships_of api c =
     (case fst (get_contract_relationships api (dn c)) of Inl _ \<Rightarrow> ([], []) | Inr pc \<Rightarrow> pc)"

text \<open>
  A contract is in the report body when it has a resolved provider or consumer; a tenant's
  section is its header and the details of its reported contracts in the order of their
  names; a tenant without contracts has no section.
\<close>

definition reported :: "api \<Rightarrow> entity \<Rightarrow> bool" where
  "reported api c = (relationships_of api c \<noteq> ([], []))"

definition details :: "api \<Rightarrow> entity \<Rightarrow> report_entry" where
  "details api c =
     ContractDetails c (fst (relationships_of api c)) (snd (relationships_of api c))"

definition tenant_section :: "api \<Rightarrow> tenant \<Rightarrow> report_entry list" where
  "tenant_section api t =
     (if contracts_of api t = [] then []
      else TenantHeader t
           # map (details api) (filter (reported api) (sort_key name (contracts_of api t))))"

definition all_contracts :: "api \<Rightarrow> tenant list \<Rightarrow> entity list" where
  "all_contracts api ts = concat (map (\<lambda>t. sort_key name (contracts_of api t)) ts)"

section \<open>A small fabric\<close>

text \<open>
  Tenant \<open>T1\<close> has VRF \<open>V1\<close> and two contracts. Contract \<open>C1\<close> is provided by the internal
  EPG \<open>EPG-A\<close> (Bridge Domain \<open>BD1\<close>, subnet 10.0.0.0/24 described as "servers") and by an
  EPG whose object is gone, and consumed by the external EPG \<open>EPG-B\<close>, which has four
  subnets: 20.0.0.0/24 named "partner", described as "wan", with scope
  export-rtctrl,import-security; 30.0.0.0/24 with scope import-security; 40.0.0.0/24 named
  "lab", without a scope; and 50.0.0.0/24 with the empty scope.
  Contract \<open>C0\<close> has no relation. Tenant \<open>T0\<close> has no VRF and the single contract \<open>C9\<close>, which
  has no relation either. Tenant \<open>infra\<close> is in the exclusion set. The controller lists the
  tenants as \<open>T1\<close>, \<open>infra\<close>, \<open>T0\<close>. The internal EPG \<open>EPG-C\<close> of \<open>T1\<close> has no Bridge-Domain
  relation and is bound to no contract.
\<close>

definition mk_item :: "string \<Rightarrow> (string \<times> string) list \<Rightarrow> item" where
  "mk_item cls kvs = [cls \<mapsto> [''attributes'' \<mapsto> map_of kvs]]"

definition mk_response :: "item list \<Rightarrow> response option" where
  "mk_response xs = Some \<lparr>imdata = Some xs, other_keys = [''totalCount'']\<rparr>"

definition fabric :: api where
  "fabric url =
    (if url = ''/node/class/fvTenant.json'' then
       mk_response
         [mk_item ''fvTenant'' [(''name'', ''T1''), (''dn'', ''uni/tn-T1'')],
          mk_item ''fvTenant'' [(''name'', ''infra''), (''dn'', ''uni/tn-infra'')],
          mk_item ''fvTenant'' [(''name'', ''T0''), (''dn'', ''uni/tn-T0'')]]
     else if url = children_url ''uni/tn-T1'' ''fvCtx'' then
       mk_response [mk_item ''fvCtx'' [(''name'', ''V1''), (''dn'', ''uni/tn-T1/ctx-V1'')]]
     else if url = children_url ''uni/tn-T0'' ''fvCtx'' then None
     else if url = children_url ''uni/tn-T1'' ''vzBrCP'' then
       mk_response
         [mk_item ''vzBrCP'' [(''name'', ''C1''), (''dn'', ''uni/tn-T1/brc-C1'')],
          mk_item ''vzBrCP'' [(''name'', ''C0''), (''dn'', ''uni/tn-T1/brc-C0'')]]
     else if url = children_url ''uni/tn-T0'' ''vzBrCP'' then
       mk_response [mk_item ''vzBrCP'' [(''name'', ''C9''), (''dn'', ''uni/tn-T0/brc-C9'')]]
     else if url = children_url ''uni/tn-T1/brc-C1'' ''vzRtProv,vzRtCons'' then
       mk_response
         [mk_item ''vzRtProv'' [(''tDn'', ''uni/tn-T1/ap-A/epg-GONE'')],
          mk_item ''vzRtCons'' [(''tDn'', ''uni/tn-T1/out-L3/instP-EPG-B'')],
          mk_item ''vzRtProv'' [(''tDn'', ''uni/tn-T1/ap-A/epg-EPG-A'')]]
     else if url = children_url ''uni/tn-T1/brc-C0'' ''vzRtProv,vzRtCons'' then
       mk_response []
     else if url = children_url ''uni/tn-T0/brc-C9'' ''vzRtProv,vzRtCons'' then
       mk_response []
     else if url = object_url ''uni/tn-T1/ap-A/epg-EPG-A'' then
       mk_response [mk_item ''fvAEPg'' [(''name'', ''EPG-A''), (''descr'', ''app'')]]
     else if url = children_url ''uni/tn-T1/ap-A/epg-EPG-A'' ''fvRsBd'' then
       mk_response [mk_item ''fvRsBd'' [(''tDn'', ''uni/tn-T1/BD-BD1'')]]
     else if url = children_url ''uni/tn-T1/BD-BD1'' ''fvSubnet'' then
       mk_response
         [mk_item ''fvSubnet'' [(''ip'', ''10.0.0.0/24''), (''descr'', ''servers''),
                                (''name'', ''sn1''), (''scope'', ''public,export-rtctrl'')]]
     else if url = object_url ''uni/tn-T1/out-L3/instP-EPG-B'' then
       mk_response [mk_item ''l3extInstP'' [(''name'', ''EPG-B'')]]
     else if url = children_url ''uni/tn-T1/out-L3/instP-EPG-B'' ''l3extSubnet'' then
       mk_response
         [mk_item ''l3extSubnet'' [(''ip'', ''20.0.0.0/24''), (''name'', ''partner''),
                                   (''descr'', ''wan''),
                                   (''scope'', ''export-rtctrl,import-security'')],
          mk_item ''l3extSubnet'' [(''ip'', ''30.0.0.0/24''), (''scope'', ''import-security'')],
          mk_item ''l3extSubnet'' [(''ip'', ''40.0.0.0/24''), (''name'', ''lab'')],
          mk_item ''l3extSubnet'' [(''ip'', ''50.0.0.0/24''), (''scope'', '''')]]
     else if url = object_url ''uni/tn-T1/ap-A/epg-EPG-C'' then
       mk_response [mk_item ''fvAEPg'' [(''name'', ''EPG-C'')]]
     else if url = children_url ''uni/tn-T1/ap-A/epg-EPG-C'' ''fvRsBd'' then
       mk_response []
     else None)"

text \<open>The fabric after the excluded tenant \<open>infra\<close> has been given a VRF.\<close>

definition fabric_changed :: api where
  "fabric_changed url =
     (if url = children_url ''uni/tn-infra'' ''fvCtx'' then
        mk_response [mk_item ''fvCtx'' [(''name'', ''overlay-1''),
                                        (''dn'', ''uni/tn-infra/ctx-overlay-1'')]]
      else fabric url)"

text \<open>The fabric after contract \<open>C9\<close>, the only contract of tenant \<open>T0\<close>, has been deleted.\<close>

definition fabric_later :: api where
  "fabric_later url =
     (if url = children_url ''uni/tn-T0'' ''vzBrCP'' then mk_response [] else fabric url)"

text \<open>What the two EPGs of contract \<open>C1\<close> resolve to.\<close>

definition EPG_A :: epg where
  "EPG_A = \<lparr>name = ''EPG-A'', dn = ''uni/tn-T1/ap-A/epg-EPG-A'', epg_type = ''internal'',
     subnets = [\<lparr>ip = ''10.0.0.0/24'', description = ''servers'', subnet_type = ''internal''\<rparr>]\<rparr>"

definition EPG_B :: epg where
  "EPG_B = \<lparr>name = ''EPG-B'', dn = ''uni/tn-T1/out-L3/instP-EPG-B'', epg_type = ''external'',
     subnets = [\<lparr>ip = ''20.0.0.0/24'', description = ''partner'', subnet_type = ''exp''\<rparr>,
                \<lparr>ip = ''30.0.0.0/24'', description = '''', subnet_type = ''ext''\<rparr>,
                \<lparr>ip = ''40.0.0.0/24'', description = ''lab'', subnet_type = ''ext''\<rparr>,
                \<lparr>ip = ''50.0.0.0/24'', description = '''', subnet_type = ''ext''\<rparr>]\<rparr>"

text \<open>The tenants and contracts of the fabric above, as the analyzer returns them.\<close>

definition tenant_T0 :: tenant where
  "tenant_T0 = \<lparr>name = ''T0'', dn = ''uni/tn-T0'', vrfs = []\<rparr>"

definition tenant_T1 :: tenant where
  "tenant_T1 = \<lparr>name = ''T1'', dn = ''uni/tn-T1'',
                 vrfs = [\<lparr>name = ''V1'', dn = ''uni/tn-T1/ctx-V1''\<rparr>]\<rparr>"

definition contract_C0 :: entity where
  "contract_C0 = \<lparr>name = ''C0'', dn = ''uni/tn-T1/brc-C0''\<rparr>"

definition contract_C1 :: entity where
  "contract_C1 = \<lparr>name = ''C1'', dn = ''uni/tn-T1/brc-C1''\<rparr>"

definition contract_C9 :: entity where
  "contract_C9 = \<lparr>name = ''C9'', dn = ''uni/tn-T0/brc-C9''\<rparr>"

section \<open>Running the effects\<close>

lemma bindM_alt:
  "bindM m f =
     (case fst m of
        Inl e \<Rightarrow> (Inl e, snd m)
      | Inr x \<Rightarrow> (fst (f x), snd m @ snd (f x)))"
  by (simp add: bindM_def split: prod.splits sum.splits)

lemma bindM_returnM [simp]: "bindM (returnM x) f = f x"
  by (simp add: bindM_alt returnM_def)

lemma bindM_raise [simp]: "bindM (raise e) f = raise e"
  by (simp add: bindM_alt raise_def)

lemma fst_returnM [simp]: "fst (returnM x) = Inr x"
  by (simp add: returnM_def)

lemma snd_returnM [simp]: "snd (returnM x) = []"
  by (simp add: returnM_def)

lemma fst_raise [simp]: "fst (raise e) = Inl e"
  by (simp add: raise_def)

lemma snd_raise [simp]: "snd (raise e) = []"
  by (simp add: raise_def)

lemma bindM_session_get:
  "bindM (session_get api u) f = (fst (f (api u)), Get u # snd (f (api u)))"
  by (simp add: bindM_alt session_get_def)

lemma bindM_f_write:
  "bindM (f_write e) f = (fst (f ()), Write e # snd (f ()))"
  by (simp add: bindM_alt f_write_def)

lemma fst_bindM_Inr:
  "fst (bindM m f) = Inr y \<longleftrightarrow> (\<exists>x. fst m = Inr x \<and> fst (f x) = Inr y)"
  by (cases "fst m") (simp_all add: bindM_alt)

lemma bindM_Inr: "fst m = Inr x \<Longrightarrow> bindM m f = (fst (f x), snd m @ snd (f x))"
  by (simp add: bindM_alt)

lemma bindM_Inl: "fst m = Inl e \<Longrightarrow> bindM m f = (Inl e, snd m)"
  by (simp add: bindM_alt)

lemma snd_bindM:
  "snd (bindM m f) = (case fst m of Inl e \<Rightarrow> snd m | Inr x \<Rightarrow> snd m @ snd (f x))"
  by (simp add: bindM_alt split: sum.splits)

lemma snd_bindM_pure: "snd m = [] \<Longrightarrow> (\<And>x. snd (f x) = []) \<Longrightarrow> snd (bindM m f) = []"
  by (simp add: snd_bindM split: sum.splits)

lemma bindM_cong_run:
  "m' = m \<Longrightarrow> (\<And>x. fst m = Inr x \<Longrightarrow> f' x = f x) \<Longrightarrow> bindM m' f' = bindM m f"
  by (cases "fst m") (simp_all add: bindM_alt)

lemma fst_bindM_cong:
  "(\<And>x. fst m = Inr x \<Longrightarrow> fst (f x) = fst (g x)) \<Longrightarrow> fst (bindM m f) = fst (bindM m g)"
  by (cases "fst m") (simp_all add: bindM_alt)

lemma getitem_Inr: "fst (getitem d k) = Inr v \<longleftrightarrow> d k = Some v"
  by (simp add: getitem_def split: option.splits)

lemma snd_getitem [simp]: "snd (getitem d k) = []"
  by (simp add: getitem_def split: option.splits)

lemma attributes_Inr:
  "fst (attributes item cls) = Inr a \<longleftrightarrow> (\<exists>obj. item cls = Some obj \<and> obj ''attributes'' = Some a)"
  by (simp add: attributes_def fst_bindM_Inr getitem_Inr)

lemma snd_attributes [simp]: "snd (attributes item cls) = []"
  by (cases "fst (getitem item cls)") (simp_all add: attributes_def bindM_alt)

lemma attribute_Inr:
  "fst (attribute item cls k) = Inr v \<longleftrightarrow>
     (\<exists>obj a. item cls = Some obj \<and> obj ''attributes'' = Some a \<and> a k = Some v)"
  by (auto simp add: attribute_def fst_bindM_Inr getitem_Inr attributes_Inr)

lemma snd_attribute [simp]: "snd (attribute item cls k) = []"
  by (cases "fst (attributes item cls)") (simp_all add: attribute_def bindM_alt)

lemma mapM_Inr: "fst (mapM f xs) = Inr ys \<longleftrightarrow> list_all2 (\<lambda>x y. fst (f x) = Inr y) xs ys"
proof (induction xs arbitrary: ys)
  case Nil
  show ?case by auto
next
  case (Cons x xs)
  show ?case
    by (cases ys) (auto simp add: fst_bindM_Inr Cons.IH)
qed

lemma snd_mapM_pure: "(\<And>x. snd (f x) = []) \<Longrightarrow> snd (mapM f xs) = []"
  by (induction xs) (simp_all add: snd_bindM_pure)

lemma str_in_iff: "str_in sub s \<longleftrightarrow> (\<exists>ps ss. s = ps @ sub @ ss)"
proof (induction s)
  case Nil
  show ?case by auto
next
  case (Cons c cs)
  show ?case
  proof
    assume "str_in sub (c # cs)"
    then consider "prefix sub (c # cs)" | "str_in sub cs" by auto
    then show "\<exists>ps ss. c # cs = ps @ sub @ ss"
    proof cases
      case 1
      then obtain zs where "c # cs = sub @ zs" by (auto simp: prefix_def)
      then have "c # cs = [] @ sub @ zs" by simp
      then show ?thesis by blast
    next
      case 2
      then obtain ps ss where "cs = ps @ sub @ ss" using Cons.IH by blast
      then have "c # cs = (c # ps) @ sub @ ss" by simp
      then show ?thesis by blast
    qed
  next
    assume "\<exists>ps ss. c # cs = ps @ sub @ ss"
    then obtain ps ss where eq: "c # cs = ps @ sub @ ss" by blast
    show "str_in sub (c # cs)"
    proof (cases ps)
      case Nil
      with eq have "prefix sub (c # cs)" by (simp add: prefix_def)
      then show ?thesis by simp
    next
      case (Cons p ps')
      with eq have "cs = ps' @ sub @ ss" by simp
      then have "str_in sub cs" using Cons.IH by blast
      then show ?thesis by simp
    qed
  qed
qed

lemma map_filter_Nil [simp]: "List.map_filter f [] = []"
  by (simp add: List.map_filter_def)

lemma map_filter_Cons:
  "List.map_filter f (x # xs) = (case f x of None \<Rightarrow> List.map_filter f xs
                                 | Some y \<Rightarrow> y # List.map_filter f xs)"
  by (simp add: List.map_filter_def split: option.splits)

lemma written_append [simp]: "written (xs @ ys) = written xs @ written ys"
  by (induction xs rule: written.induct) simp_all

lemma written_bindM:
  "written (snd m) = [] \<Longrightarrow> (\<And>x. written (snd (f x)) = []) \<Longrightarrow> written (snd (bindM m f)) = []"
  by (simp add: snd_bindM split: sum.splits)

lemma written_session_get [simp]: "written (snd (session_get api u)) = []"
  by (simp add: session_get_def)

lemma written_requests: "written (map (\<lambda>t. Get (f t)) ts) = []"
  by (induction ts) simp_all

section \<open>The small fabric, evaluated\<close>

lemma fabric_EPG_A:
  "get_epg_info fabric ''uni/tn-T1/ap-A/epg-EPG-A'' =
     (Inr (Some EPG_A),
      [Get ''/node/mo/uni/tn-T1/ap-A/epg-EPG-A.json'',
       Get ''/node/mo/uni/tn-T1/ap-A/epg-EPG-A.json?query-target=children&target-subtree-class=fvRsBd'',
       Get ''/node/mo/uni/tn-T1/BD-BD1.json?query-target=children&target-subtree-class=fvSubnet''])"
  by code_simp

lemma fabric_EPG_B:
  "get_epg_info fabric ''uni/tn-T1/out-L3/instP-EPG-B'' =
     (Inr (Some EPG_B),
      [Get ''/node/mo/uni/tn-T1/out-L3/instP-EPG-B.json'',
       Get ''/node/mo/uni/tn-T1/out-L3/instP-EPG-B.json?query-target=children&target-subtree-class=l3extSubnet''])"
  by code_simp

lemma fabric_EPG_C:
  "get_epg_info fabric ''uni/tn-T1/ap-A/epg-EPG-C''
     = (Inr (Some \<lparr>name = ''EPG-C'', dn = ''uni/tn-T1/ap-A/epg-EPG-C'',
                     epg_type = ''internal'', subnets = []\<rparr>),
        [Get ''/node/mo/uni/tn-T1/ap-A/epg-EPG-C.json'',
         Get ''/node/mo/uni/tn-T1/ap-A/epg-EPG-C.json?query-target=children&target-subtree-class=fvRsBd''])"
  by code_simp

lemma fabric_EPG_GONE:
  "get_epg_info fabric ''uni/tn-T1/ap-A/epg-GONE'' =
     (Inr None, [Get ''/node/mo/uni/tn-T1/ap-A/epg-GONE.json''])"
  by code_simp

lemma fabric_get_tenants:
  "get_tenants fabric =
     (Inr [\<lparr>name = ''T0'', dn = ''uni/tn-T0'', vrfs = []\<rparr>,
           \<lparr>name = ''T1'', dn = ''uni/tn-T1'',
              vrfs = [\<lparr>name = ''V1'', dn = ''uni/tn-T1/ctx-V1''\<rparr>]\<rparr>],
      [Get ''/node/class/fvTenant.json'',
       Get ''/node/mo/uni/tn-T1.json?query-target=children&target-subtree-class=fvCtx'',
       Get ''/node/mo/uni/tn-T0.json?query-target=children&target-subtree-class=fvCtx''])"
  by code_simp

lemma fabric_tenant_records:
  "records (fabric ''/node/class/fvTenant.json'') =
     [mk_item ''fvTenant'' [(''name'', ''T1''), (''dn'', ''uni/tn-T1'')],
      mk_item ''fvTenant'' [(''name'', ''infra''), (''dn'', ''uni/tn-infra'')],
      mk_item ''fvTenant'' [(''name'', ''T0''), (''dn'', ''uni/tn-T0'')]]"
  by (simp add: fabric_def records_def mk_response_def imdata_or_empty_def)

lemma fabric_T0_vrfs: "fabric (children_url ''uni/tn-T0'' ''fvCtx'') = None"
  by (simp add: fabric_def children_url_def object_url_def)

lemma fabric_C1_records:
  "records (fabric (children_url ''uni/tn-T1/brc-C1'' ''vzRtProv,vzRtCons'')) =
     [] @ mk_item ''vzRtProv'' [(''tDn'', ''uni/tn-T1/ap-A/epg-GONE'')]
        # [mk_item ''vzRtCons'' [(''tDn'', ''uni/tn-T1/out-L3/instP-EPG-B'')],
           mk_item ''vzRtProv'' [(''tDn'', ''uni/tn-T1/ap-A/epg-EPG-A'')]]"
  by (simp add: fabric_def records_def mk_response_def imdata_or_empty_def children_url_def
      object_url_def)

lemma fabric_GONE_records: "records (fabric (object_url ''uni/tn-T1/ap-A/epg-GONE'')) = []"
  by (simp add: fabric_def records_def children_url_def object_url_def)

lemma fabric_C1_relationships:
  "fst (get_contract_relationships fabric ''uni/tn-T1/brc-C1'') = Inr ([EPG_A], [EPG_B])"
  by code_simp

lemma fabric_empty_contracts:
  "fst (get_contracts fabric (dn tenant_T0)) = Inr [contract_C9]"
  "fst (get_contracts fabric (dn tenant_T1)) = Inr [contract_C1, contract_C0]"
  "fst (get_contract_relationships fabric (dn contract_C9)) = Inr ([], [])"
  "fst (get_contract_relationships fabric (dn contract_C0)) = Inr ([], [])"
  by code_simp+

lemma fabric_report:
  "generate_complete_report fabric =
     (Inr (),
      [Get ''/node/class/fvTenant.json'',
       Get ''/node/mo/uni/tn-T1.json?query-target=children&target-subtree-class=fvCtx'',
       Get ''/node/mo/uni/tn-T0.json?query-target=children&target-subtree-class=fvCtx'',
       Write Header,
       Get ''/node/mo/uni/tn-T0.json?query-target=children&target-subtree-class=vzBrCP'',
       Write (TenantHeader tenant_T0),
       Get ''/node/mo/uni/tn-T0/brc-C9.json?query-target=children&target-subtree-class=vzRtProv,vzRtCons'',
       Get ''/node/mo/uni/tn-T1.json?query-target=children&target-subtree-class=vzBrCP'',
       Write (TenantHeader tenant_T1),
       Get ''/node/mo/uni/tn-T1/brc-C0.json?query-target=children&target-subtree-class=vzRtProv,vzRtCons'',
       Get ''/node/mo/uni/tn-T1/brc-C1.json?query-target=children&target-subtree-class=vzRtProv,vzRtCons'',
       Get ''/node/mo/uni/tn-T1/ap-A/epg-GONE.json'',
       Get ''/node/mo/uni/tn-T1/out-L3/instP-EPG-B.json'',
       Get ''/node/mo/uni/tn-T1/out-L3/instP-EPG-B.json?query-target=children&target-subtree-class=l3extSubnet'',
       Get ''/node/mo/uni/tn-T1/ap-A/epg-EPG-A.json'',
       Get ''/node/mo/uni/tn-T1/ap-A/epg-EPG-A.json?query-target=children&target-subtree-class=fvRsBd'',
       Get ''/node/mo/uni/tn-T1/BD-BD1.json?query-target=children&target-subtree-class=fvSubnet'',
       Write (ContractDetails contract_C1 [EPG_A] [EPG_B]),
       Get ''/node/mo/uni/tn-T0.json?query-target=children&target-subtree-class=vzBrCP'',
       Get ''/node/mo/uni/tn-T1.json?query-target=children&target-subtree-class=vzBrCP'',
       Write (Summary 2 \<lparr>stat_contracts = 3, stat_providers = 1, stat_consumers = 1\<rparr>)])"
  by code_simp

lemma fabric_later_report:
  "fst (generate_complete_report_changing fabric fabric_later) = Inr ()"
  "drop 18 (snd (generate_complete_report_changing fabric fabric_later))
     = [Get ''/node/mo/uni/tn-T0.json?query-target=children&target-subtree-class=vzBrCP'',
        Get ''/node/mo/uni/tn-T1.json?query-target=children&target-subtree-class=vzBrCP'',
        Write (Summary 1 \<lparr>stat_contracts = 3, stat_providers = 1, stat_consumers = 1\<rparr>)]"
  "written (snd (generate_complete_report_changing fabric fabric_later))
     = [Header, TenantHeader tenant_T0, TenantHeader tenant_T1,
        ContractDetails contract_C1 [EPG_A] [EPG_B],
        Summary 1 \<lparr>stat_contracts = 3, stat_providers = 1, stat_consumers = 1\<rparr>]"
  by code_simp+

lemma fabric_later_contracts:
  "fst (get_contracts fabric_later (dn tenant_T0)) = Inr []"
  "fst (get_contracts fabric_later (dn tenant_T1)) = Inr [contract_C1, contract_C0]"
  by code_simp+

section \<open>Resolving an EPG\<close>

lemma external_subnet_Inr:
  "fst (external_subnet item) = Inr s \<longleftrightarrow>
     (\<exists>obj a i. item ''l3extSubnet'' = Some obj \<and> obj ''attributes'' = Some a \<and> a ''ip'' = Some i \<and>
        s = \<lparr>ip = i, description = get_default a ''name'' '''',
             subnet_type = (if str_in ''export-rtctrl'' (get_default a ''scope'' '''')
                            then ''exp'' else ''ext'')\<rparr>)"
  by (auto simp add: external_subnet_def fst_bindM_Inr attributes_Inr getitem_Inr Let_def)

lemma snd_external_subnet [simp]: "snd (external_subnet item) = []"
  by (simp add: external_subnet_def snd_bindM_pure Let_def)

lemma internal_subnet_Inr:
  "fst (internal_subnet item) = Inr s \<longleftrightarrow>
     (\<exists>obj a i. item ''fvSubnet'' = Some obj \<and> obj ''attributes'' = Some a \<and> a ''ip'' = Some i \<and>
        s = \<lparr>ip = i, description = get_default a ''descr'' '''', subnet_type = ''internal''\<rparr>)"
  by (auto simp add: internal_subnet_def fst_bindM_Inr attributes_Inr attribute_Inr)

lemma snd_internal_subnet [simp]: "snd (internal_subnet item) = []"
  by (simp add: internal_subnet_def snd_bindM_pure)

lemma records_cases:
  "records data = (case data of None \<Rightarrow> []
     | Some r \<Rightarrow> if empty_object r \<or> not_imdata r then [] else imdata_or_empty r)"
  by (auto simp add: records_def imdata_or_empty_def empty_object_def not_imdata_def
      split: option.splits)

lemma not_imdata_iff: "empty_object r \<or> not_imdata r \<longleftrightarrow> imdata_or_empty r = []"
  by (auto simp add: imdata_or_empty_def empty_object_def not_imdata_def split: option.splits)

lemma get_external_subnets_Inr:
  "fst (get_external_subnets api d) = Inr sn \<longleftrightarrow>
     list_all2 (\<lambda>item s. fst (external_subnet item) = Inr s)
       (records (api (children_url d ''l3extSubnet''))) sn"
  by (auto simp add: get_external_subnets_def bindM_session_get records_def not_imdata_iff mapM_Inr
      split: option.splits)

lemma snd_get_external_subnets:
  "snd (get_external_subnets api d) = [Get (children_url d ''l3extSubnet'')]"
  by (simp add: get_external_subnets_def bindM_session_get snd_mapM_pure split: option.splits)

lemma get_external_epg_info_Some:
  assumes "fst (get_external_epg_info api d) = Inr (Some e)"
  shows "epg_type e = ''external'' \<and> dn e = d \<and>
         list_all2 (\<lambda>item s. fst (external_subnet item) = Inr s)
           (records (api (children_url d ''l3extSubnet''))) (subnets e)"
  using assms
  by (auto simp add: get_external_epg_info_def bindM_session_get fst_bindM_Inr
      get_external_subnets_Inr split: option.splits if_splits)

lemma get_internal_subnets_result:
  assumes "fst (get_internal_subnets api d) = Inr sn"
  shows "case records (api (children_url d ''fvRsBd'')) of
           [] \<Rightarrow> sn = [] \<and> snd (get_internal_subnets api d) = [Get (children_url d ''fvRsBd'')]
         | bd # _ \<Rightarrow>
             \<exists>obj a bd_dn. bd ''fvRsBd'' = Some obj \<and> obj ''attributes'' = Some a \<and>
               a ''tDn'' = Some bd_dn \<and>
               snd (get_internal_subnets api d)
                 = [Get (children_url d ''fvRsBd''), Get (children_url bd_dn ''fvSubnet'')] \<and>
               list_all2 (\<lambda>item s. fst (internal_subnet item) = Inr s)
                 (records (api (children_url bd_dn ''fvSubnet''))) sn"
proof (cases "records (api (children_url d ''fvRsBd''))")
  case Nil
  then show ?thesis using assms
    by (auto simp add: get_internal_subnets_def bindM_session_get records_def not_imdata_iff
        split: option.splits if_splits)
next
  case (Cons bd rest)
  then obtain r where r: "api (children_url d ''fvRsBd'') = Some r" "imdata_or_empty r = bd # rest"
    by (auto simp add: records_def split: option.splits)
  from r have ne: "\<not> (empty_object r \<or> not_imdata r)" by (simp add: not_imdata_iff)
  from assms r ne obtain bd_dn where
    bd: "fst (attribute bd ''fvRsBd'' ''tDn'') = Inr bd_dn"
    by (auto simp add: get_internal_subnets_def bindM_session_get fst_bindM_Inr)
  have tr: "snd (get_internal_subnets api d)
      = [Get (children_url d ''fvRsBd''), Get (children_url bd_dn ''fvSubnet'')]"
    using r ne bd
    by (auto simp add: get_internal_subnets_def bindM_session_get bindM_Inr snd_mapM_pure
        split: option.splits)
  have res: "list_all2 (\<lambda>item s. fst (internal_subnet item) = Inr s)
      (records (api (children_url bd_dn ''fvSubnet''))) sn"
    using assms r ne bd
    by (auto simp add: get_internal_subnets_def bindM_session_get bindM_Inr records_def
        not_imdata_iff mapM_Inr split: option.splits if_splits)
  from bd tr res Cons show ?thesis by (auto simp add: attribute_Inr)
qed

lemma get_internal_epg_info_Some:
  assumes "fst (get_internal_epg_info api d) = Inr (Some e)"
  shows "epg_type e = ''internal'' \<and> dn e = d \<and>
         fst (get_internal_subnets api d) = Inr (subnets e) \<and>
         snd (get_internal_epg_info api d) = Get (object_url d) # snd (get_internal_subnets api d)"
  using assms
  by (auto simp add: get_internal_epg_info_def bindM_session_get fst_bindM_Inr bindM_Inr snd_bindM
      split: option.splits if_splits sum.splits)

lemma bd_lookup_simps:
  "bd_lookup (Get (object_url d)) = False"
  "bd_lookup (Get (children_url d ''fvRsBd'')) = True"
  "bd_lookup (Get (children_url d ''fvSubnet'')) = False"
  by (simp_all add: bd_lookup_def object_url_def children_url_def suffix_to_prefix)

lemma get_epg_info_internal_subnets:
  assumes "\<not> str_in ''/out-'' d" and "fst (get_epg_info api d) = Inr (Some e)"
  shows "\<forall>s \<in> set (subnets e). subnet_type s = ''internal''"
proof -
  from assms have s: "fst (get_internal_epg_info api d) = Inr (Some e)"
    by (simp add: get_epg_info_def)
  from get_internal_epg_info_Some [OF s]
  have sn: "fst (get_internal_subnets api d) = Inr (subnets e)" by simp
  note r = get_internal_subnets_result [OF sn]
  show ?thesis
  proof (cases "records (api (children_url d ''fvRsBd''))")
    case Nil
    with r show ?thesis by simp
  next
    case (Cons bd rest)
    with r obtain bd_dn where
      "list_all2 (\<lambda>item s. fst (internal_subnet item) = Inr s)
         (records (api (children_url bd_dn ''fvSubnet''))) (subnets e)"
      by auto
    then have "list_all2 (\<lambda>item s. subnet_type s = ''internal'')
         (records (api (children_url bd_dn ''fvSubnet''))) (subnets e)"
      by (rule list_all2_mono) (auto simp add: internal_subnet_Inr)
    then show ?thesis
      by (auto simp add: list_all2_conv_all_nth in_set_conv_nth)
  qed
qed

lemma get_epg_info_external_subnets:
  assumes "str_in ''/out-'' d" and "fst (get_epg_info api d) = Inr (Some e)"
  shows "list_all2 (\<lambda>item s. fst (external_subnet item) = Inr s)
           (records (api (children_url d ''l3extSubnet''))) (subnets e)"
proof -
  from assms have "fst (get_external_epg_info api d) = Inr (Some e)"
    by (simp add: get_epg_info_def)
  from get_external_epg_info_Some [OF this] show ?thesis by simp
qed

lemma get_epg_info_no_records:
  "records (api (object_url d)) = [] \<Longrightarrow> fst (get_epg_info api d) = Inr None"
  by (auto simp add: get_epg_info_def get_external_epg_info_def get_internal_epg_info_def
      bindM_session_get records_def not_imdata_iff split: option.splits)

text \<open>
  C6. When the request for the object of a target path returns \<^verbatim>\<open>None\<close>, or an object whose
  \<^verbatim>\<open>imdata\<close> is absent or the empty list, \<^verbatim>\<open>_get_epg_info\<close> returns \<^verbatim>\<open>None\<close> without an
  exception, and that request is the only one it sends. This holds for paths with and
  without the marker \<^verbatim>\<open>/out-\<close>.
\<close>

theorem get_epg_info_no_data:
  assumes "api (object_url epg_dn) = None
           \<or> (\<exists>r. api (object_url epg_dn) = Some r \<and> (imdata r = None \<or> imdata r = Some []))"
  shows "get_epg_info api epg_dn = (Inr None, [Get (object_url epg_dn)])"
  using assms
  by (auto simp add: get_epg_info_def get_external_epg_info_def get_internal_epg_info_def
      bindM_session_get not_imdata_def returnM_def)

theorem get_epg_info_no_data_witness:
  "fabric (object_url ''uni/tn-T1/ap-A/epg-GONE'') = None
   \<and> get_epg_info fabric ''uni/tn-T1/ap-A/epg-GONE''
       = (Inr None, [Get ''/node/mo/uni/tn-T1/ap-A/epg-GONE.json''])"
proof -
  have h: "fabric (object_url ''uni/tn-T1/ap-A/epg-GONE'') = None"
    by (simp add: fabric_def object_url_def children_url_def)
  from get_epg_info_no_data [of fabric "''uni/tn-T1/ap-A/epg-GONE''", OF disjI1 [OF h]] h
  show ?thesis by (simp add: object_url_def)
qed

text \<open>
  C1. For a target path that contains the marker \<^verbatim>\<open>/out-\<close>, \<^verbatim>\<open>_get_epg_info\<close> is
  \<^verbatim>\<open>_get_external_epg_info\<close>; every EPG it returns has the type \<^verbatim>\<open>external\<close>, and its
  subnets are, one for one and in order, the records of the \<^verbatim>\<open>l3extSubnet\<close> request, the
  description of each being the \<^verbatim>\<open>name\<close> attribute of its record (empty when the record has
  none). The \<^verbatim>\<open>descr\<close> attribute of the record is not read.
\<close>

theorem get_epg_info_external:
  assumes "str_in ''/out-'' epg_dn"
  shows "get_epg_info api epg_dn = get_external_epg_info api epg_dn \<and>
         (\<forall>e. fst (get_epg_info api epg_dn) = Inr (Some e) \<longrightarrow>
            epg_type e = ''external'' \<and>
            list_all2
              (\<lambda>item s. \<exists>obj a. item ''l3extSubnet'' = Some obj \<and> obj ''attributes'' = Some a \<and>
                 description s = (case a ''name'' of None \<Rightarrow> '''' | Some n \<Rightarrow> n))
              (records (api (children_url epg_dn ''l3extSubnet''))) (subnets e))"
proof -
  have eq: "get_epg_info api epg_dn = get_external_epg_info api epg_dn"
    using assms by (simp add: get_epg_info_def)
  have "epg_type e = ''external'' \<and>
        list_all2
          (\<lambda>item s. \<exists>obj a. item ''l3extSubnet'' = Some obj \<and> obj ''attributes'' = Some a \<and>
             description s = (case a ''name'' of None \<Rightarrow> '''' | Some n \<Rightarrow> n))
          (records (api (children_url epg_dn ''l3extSubnet''))) (subnets e)"
    if "fst (get_external_epg_info api epg_dn) = Inr (Some e)" for e
  proof -
    from get_external_epg_info_Some [OF that]
    have t: "epg_type e = ''external''"
      and l: "list_all2 (\<lambda>item s. fst (external_subnet item) = Inr s)
                (records (api (children_url epg_dn ''l3extSubnet''))) (subnets e)"
      by simp_all
    from l have "list_all2
          (\<lambda>item s. \<exists>obj a. item ''l3extSubnet'' = Some obj \<and> obj ''attributes'' = Some a \<and>
             description s = (case a ''name'' of None \<Rightarrow> '''' | Some n \<Rightarrow> n))
          (records (api (children_url epg_dn ''l3extSubnet''))) (subnets e)"
      by (rule list_all2_mono) (auto simp add: external_subnet_Inr get_default_def)
    with t show ?thesis by simp
  qed
  with eq show ?thesis by simp
qed

theorem get_epg_info_external_witness:
  "str_in ''/out-'' ''uni/tn-T1/out-L3/instP-EPG-B'' \<and>
   fst (get_epg_info fabric ''uni/tn-T1/out-L3/instP-EPG-B'') =
     Inr (Some EPG_B) \<and>
   list_all2
     (\<lambda>item s. \<exists>obj a. item ''l3extSubnet'' = Some obj \<and> obj ''attributes'' = Some a \<and>
        description s = (case a ''name'' of None \<Rightarrow> '''' | Some n \<Rightarrow> n))
     (records (fabric (children_url ''uni/tn-T1/out-L3/instP-EPG-B'' ''l3extSubnet'')))
     (subnets EPG_B)"
proof -
  have h: "str_in ''/out-'' ''uni/tn-T1/out-L3/instP-EPG-B''" by code_simp
  have e: "fst (get_epg_info fabric ''uni/tn-T1/out-L3/instP-EPG-B'') =
     Inr (Some EPG_B)"
    by (simp add: fabric_EPG_B)
  from get_epg_info_external [OF h, of fabric, THEN conjunct2, rule_format, OF e] h e
  show ?thesis by simp
qed

text \<open>
  C2, for the paths that resolve. For a target path without the marker \<^verbatim>\<open>/out-\<close> whose resolution returns an
  EPG, the EPG has the type \<^verbatim>\<open>internal\<close> and exactly one request of the run is a
  Bridge-Domain lookup. The run sends the request for the object and the Bridge-Domain
  lookup; when that lookup returns no record the run stops there with no subnet, and
  otherwise it sends one more request, for the \<^verbatim>\<open>fvSubnet\<close> children of the \<^verbatim>\<open>tDn\<close> of the
  first record, and the subnets of the EPG are, one for one and in order, the records of that
  request, the description of each being the \<^verbatim>\<open>descr\<close> attribute of its record (empty when
  the record has none).
\<close>

theorem get_epg_info_internal:
  assumes "\<not> str_in ''/out-'' epg_dn"
    and "fst (get_epg_info api epg_dn) = Inr (Some e)"
  shows "epg_type e = ''internal'' \<and>
         length (filter bd_lookup (snd (get_epg_info api epg_dn))) = 1 \<and>
         (case records (api (children_url epg_dn ''fvRsBd'')) of
            [] \<Rightarrow>
              snd (get_epg_info api epg_dn)
                = [Get (object_url epg_dn), Get (children_url epg_dn ''fvRsBd'')] \<and>
              subnets e = []
          | bd # _ \<Rightarrow>
              \<exists>obj a bd_dn. bd ''fvRsBd'' = Some obj \<and> obj ''attributes'' = Some a \<and>
                a ''tDn'' = Some bd_dn \<and>
                snd (get_epg_info api epg_dn)
                  = [Get (object_url epg_dn), Get (children_url epg_dn ''fvRsBd''),
                     Get (children_url bd_dn ''fvSubnet'')] \<and>
                list_all2
                  (\<lambda>item s. \<exists>obj a. item ''fvSubnet'' = Some obj \<and> obj ''attributes'' = Some a \<and>
                     description s = (case a ''descr'' of None \<Rightarrow> '''' | Some x \<Rightarrow> x))
                  (records (api (children_url bd_dn ''fvSubnet''))) (subnets e))"
proof -
  have eq: "get_epg_info api epg_dn = get_internal_epg_info api epg_dn"
    using assms(1) by (simp add: get_epg_info_def)
  with assms(2) have s: "fst (get_internal_epg_info api epg_dn) = Inr (Some e)" by simp
  from get_internal_epg_info_Some [OF s]
  have t: "epg_type e = ''internal''"
    and sn: "fst (get_internal_subnets api epg_dn) = Inr (subnets e)"
    and tr: "snd (get_epg_info api epg_dn)
               = Get (object_url epg_dn) # snd (get_internal_subnets api epg_dn)"
    by (simp_all add: eq)
  note r = get_internal_subnets_result [OF sn]
  show ?thesis
  proof (cases "records (api (children_url epg_dn ''fvRsBd''))")
    case Nil
    with r t tr show ?thesis by (simp add: bd_lookup_simps)
  next
    case (Cons bd rest)
    with r obtain obj a bd_dn where
      bd: "bd ''fvRsBd'' = Some obj" "obj ''attributes'' = Some a" "a ''tDn'' = Some bd_dn"
      and tr': "snd (get_internal_subnets api epg_dn)
                  = [Get (children_url epg_dn ''fvRsBd''), Get (children_url bd_dn ''fvSubnet'')]"
      and l: "list_all2 (\<lambda>item s. fst (internal_subnet item) = Inr s)
                (records (api (children_url bd_dn ''fvSubnet''))) (subnets e)"
      by auto
    from l have l': "list_all2
        (\<lambda>item s. \<exists>obj a. item ''fvSubnet'' = Some obj \<and> obj ''attributes'' = Some a \<and>
           description s = (case a ''descr'' of None \<Rightarrow> '''' | Some x \<Rightarrow> x))
        (records (api (children_url bd_dn ''fvSubnet''))) (subnets e)"
      by (rule list_all2_mono) (auto simp add: internal_subnet_Inr get_default_def)
    from Cons t tr tr' bd l' show ?thesis by (simp add: bd_lookup_simps)
  qed
qed

theorem get_epg_info_internal_witness:
  "\<not> str_in ''/out-'' ''uni/tn-T1/ap-A/epg-EPG-A'' \<and>
   get_epg_info fabric ''uni/tn-T1/ap-A/epg-EPG-A'' =
     (Inr (Some EPG_A),
      [Get ''/node/mo/uni/tn-T1/ap-A/epg-EPG-A.json'',
       Get ''/node/mo/uni/tn-T1/ap-A/epg-EPG-A.json?query-target=children&target-subtree-class=fvRsBd'',
       Get ''/node/mo/uni/tn-T1/BD-BD1.json?query-target=children&target-subtree-class=fvSubnet'']) \<and>
   length (filter bd_lookup (snd (get_epg_info fabric ''uni/tn-T1/ap-A/epg-EPG-A''))) = 1"
proof -
  have h: "\<not> str_in ''/out-'' ''uni/tn-T1/ap-A/epg-EPG-A''" by code_simp
  have e: "fst (get_epg_info fabric ''uni/tn-T1/ap-A/epg-EPG-A'') =
     Inr (Some EPG_A)"
    by (simp add: fabric_EPG_A)
  from get_epg_info_internal [OF h e] have
    "length (filter bd_lookup (snd (get_epg_info fabric ''uni/tn-T1/ap-A/epg-EPG-A''))) = 1"
    by simp
  with h fabric_EPG_A show ?thesis by simp
qed

text \<open>
  C2 without these conditions fails in two ways. Where the object of the target path cannot
  be fetched, the path has no marker, resolution returns \<^verbatim>\<open>None\<close>, and no Bridge-Domain lookup
  is sent. Where the EPG has no Bridge-Domain relation, resolution returns the EPG after the
  lookup, and no request for subnet children is sent.
\<close>

theorem get_epg_info_internal_counterexample:
  "\<not> str_in ''/out-'' ''uni/tn-T1/ap-A/epg-GONE'' \<and>
   get_epg_info fabric ''uni/tn-T1/ap-A/epg-GONE''
     = (Inr None, [Get ''/node/mo/uni/tn-T1/ap-A/epg-GONE.json'']) \<and>
   length (filter bd_lookup (snd (get_epg_info fabric ''uni/tn-T1/ap-A/epg-GONE''))) = 0 \<and>
   \<not> str_in ''/out-'' ''uni/tn-T1/ap-A/epg-EPG-C'' \<and>
   get_epg_info fabric ''uni/tn-T1/ap-A/epg-EPG-C''
     = (Inr (Some \<lparr>name = ''EPG-C'', dn = ''uni/tn-T1/ap-A/epg-EPG-C'',
                     epg_type = ''internal'', subnets = []\<rparr>),
        [Get ''/node/mo/uni/tn-T1/ap-A/epg-EPG-C.json'',
         Get ''/node/mo/uni/tn-T1/ap-A/epg-EPG-C.json?query-target=children&target-subtree-class=fvRsBd''])"
proof -
  have h: "\<not> str_in ''/out-'' ''uni/tn-T1/ap-A/epg-GONE''" by code_simp
  have b: "\<not> bd_lookup (Get ''/node/mo/uni/tn-T1/ap-A/epg-GONE.json'')" by code_simp
  have h': "\<not> str_in ''/out-'' ''uni/tn-T1/ap-A/epg-EPG-C''" by code_simp
  from h b h' fabric_EPG_GONE fabric_EPG_C show ?thesis by simp
qed

text \<open>
  C3. In an EPG resolved from a path with the marker, a subnet whose record has a scope that
  contains \<^verbatim>\<open>export-rtctrl\<close> has the type \<^verbatim>\<open>exp\<close>, and a subnet whose record has any other
  non-empty scope has the type \<^verbatim>\<open>ext\<close>. In an EPG resolved from a path without the marker,
  the type of every subnet is the constant \<^verbatim>\<open>internal\<close>, never \<^verbatim>\<open>exp\<close> or \<^verbatim>\<open>ext\<close>.
\<close>

theorem subnet_type_tags:
  assumes "fst (get_epg_info api epg_dn) = Inr (Some e)"
  shows "(str_in ''/out-'' epg_dn \<longrightarrow>
            list_all2
              (\<lambda>item s. \<exists>obj a. item ''l3extSubnet'' = Some obj \<and> obj ''attributes'' = Some a \<and>
                 (\<forall>scope. a ''scope'' = Some scope \<longrightarrow>
                    (str_in ''export-rtctrl'' scope \<longrightarrow> subnet_type s = ''exp'') \<and>
                    (\<not> str_in ''export-rtctrl'' scope \<and> scope \<noteq> '''' \<longrightarrow> subnet_type s = ''ext'')))
              (records (api (children_url epg_dn ''l3extSubnet''))) (subnets e)) \<and>
         (\<not> str_in ''/out-'' epg_dn \<longrightarrow>
            (\<forall>s \<in> set (subnets e).
               subnet_type s = ''internal'' \<and> subnet_type s \<noteq> ''exp'' \<and> subnet_type s \<noteq> ''ext''))"
proof (intro conjI impI)
  assume m: "str_in ''/out-'' epg_dn"
  from get_epg_info_external_subnets [OF m assms]
  show "list_all2
      (\<lambda>item s. \<exists>obj a. item ''l3extSubnet'' = Some obj \<and> obj ''attributes'' = Some a \<and>
         (\<forall>scope. a ''scope'' = Some scope \<longrightarrow>
            (str_in ''export-rtctrl'' scope \<longrightarrow> subnet_type s = ''exp'') \<and>
            (\<not> str_in ''export-rtctrl'' scope \<and> scope \<noteq> '''' \<longrightarrow> subnet_type s = ''ext'')))
      (records (api (children_url epg_dn ''l3extSubnet''))) (subnets e)"
    by (rule list_all2_mono) (auto simp add: external_subnet_Inr get_default_def)
next
  assume m: "\<not> str_in ''/out-'' epg_dn"
  from get_epg_info_internal_subnets [OF m assms]
  show "\<forall>s \<in> set (subnets e).
      subnet_type s = ''internal'' \<and> subnet_type s \<noteq> ''exp'' \<and> subnet_type s \<noteq> ''ext''"
    by simp
qed

theorem subnet_type_tags_witness:
  "fst (get_epg_info fabric ''uni/tn-T1/out-L3/instP-EPG-B'') = Inr (Some EPG_B) \<and>
   str_in ''/out-'' ''uni/tn-T1/out-L3/instP-EPG-B'' \<and>
   list_all2
     (\<lambda>item s. \<exists>obj a. item ''l3extSubnet'' = Some obj \<and> obj ''attributes'' = Some a \<and>
        (\<forall>scope. a ''scope'' = Some scope \<longrightarrow>
           (str_in ''export-rtctrl'' scope \<longrightarrow> subnet_type s = ''exp'') \<and>
           (\<not> str_in ''export-rtctrl'' scope \<and> scope \<noteq> '''' \<longrightarrow> subnet_type s = ''ext'')))
     (records (fabric (children_url ''uni/tn-T1/out-L3/instP-EPG-B'' ''l3extSubnet'')))
     (subnets EPG_B) \<and>
   map subnet_type (subnets EPG_B) = [''exp'', ''ext'', ''ext'', ''ext''] \<and>
   fst (get_epg_info fabric ''uni/tn-T1/ap-A/epg-EPG-A'') = Inr (Some EPG_A) \<and>
   \<not> str_in ''/out-'' ''uni/tn-T1/ap-A/epg-EPG-A'' \<and>
   map subnet_type (subnets EPG_A) = [''internal'']"
proof -
  have hb: "str_in ''/out-'' ''uni/tn-T1/out-L3/instP-EPG-B''" by code_simp
  have ha: "\<not> str_in ''/out-'' ''uni/tn-T1/ap-A/epg-EPG-A''" by code_simp
  have eb: "fst (get_epg_info fabric ''uni/tn-T1/out-L3/instP-EPG-B'') = Inr (Some EPG_B)"
    by (simp add: fabric_EPG_B)
  have ea: "fst (get_epg_info fabric ''uni/tn-T1/ap-A/epg-EPG-A'') = Inr (Some EPG_A)"
    by (simp add: fabric_EPG_A)
  have tb: "map subnet_type (subnets EPG_B) = [''exp'', ''ext'', ''ext'', ''ext'']"
    by (simp add: EPG_B_def)
  from subnet_type_tags [OF eb, THEN conjunct1, rule_format, OF hb]
       subnet_type_tags [OF ea, THEN conjunct2, rule_format, OF ha]
       hb ha eb ea tb
  show ?thesis by (simp add: EPG_A_def)
qed

text \<open>
  C10. In an EPG resolved from a path with the marker, a subnet whose record has no scope,
  or the empty scope, has the type \<^verbatim>\<open>ext\<close>; the type is \<^verbatim>\<open>exp\<close> exactly when the record has a
  scope in which \<^verbatim>\<open>export-rtctrl\<close> occurs as a substring, and \<^verbatim>\<open>ext\<close> otherwise.
\<close>

theorem external_subnet_scope:
  assumes "str_in ''/out-'' epg_dn"
    and "fst (get_epg_info api epg_dn) = Inr (Some e)"
  shows "list_all2
           (\<lambda>item s. \<exists>obj a. item ''l3extSubnet'' = Some obj \<and> obj ''attributes'' = Some a \<and>
              (a ''scope'' = None \<or> a ''scope'' = Some '''' \<longrightarrow> subnet_type s = ''ext'') \<and>
              (subnet_type s = ''exp'' \<longleftrightarrow>
                 (\<exists>scope ps ss. a ''scope'' = Some scope \<and> scope = ps @ ''export-rtctrl'' @ ss)) \<and>
              (subnet_type s \<noteq> ''exp'' \<longrightarrow> subnet_type s = ''ext''))
           (records (api (children_url epg_dn ''l3extSubnet''))) (subnets e)"
proof -
  have none: "\<not> str_in ''export-rtctrl'' ''''" by simp
  have item: "\<exists>obj a. item ''l3extSubnet'' = Some obj \<and> obj ''attributes'' = Some a \<and>
      (a ''scope'' = None \<or> a ''scope'' = Some '''' \<longrightarrow> subnet_type s = ''ext'') \<and>
      (subnet_type s = ''exp'' \<longleftrightarrow>
         (\<exists>scope ps ss. a ''scope'' = Some scope \<and> scope = ps @ ''export-rtctrl'' @ ss)) \<and>
      (subnet_type s \<noteq> ''exp'' \<longrightarrow> subnet_type s = ''ext'')"
    if "fst (external_subnet item) = Inr s" for item s
  proof -
    from that obtain obj a where
      oa: "item ''l3extSubnet'' = Some obj" "obj ''attributes'' = Some a"
      and ty: "subnet_type s =
        (if str_in ''export-rtctrl'' (get_default a ''scope'' '''') then ''exp'' else ''ext'')"
      by (auto simp add: external_subnet_Inr)
    show ?thesis
    proof (cases "a ''scope''")
      case None
      with oa ty none show ?thesis by (simp add: get_default_def)
    next
      case (Some scope)
      with oa ty none show ?thesis
        by (cases "str_in ''export-rtctrl'' scope")
           (auto simp add: get_default_def str_in_iff)
    qed
  qed
  from get_epg_info_external_subnets [OF assms]
  show ?thesis by (rule list_all2_mono) (rule item)
qed

theorem external_subnet_scope_witness:
  "str_in ''/out-'' ''uni/tn-T1/out-L3/instP-EPG-B'' \<and>
   fst (get_epg_info fabric ''uni/tn-T1/out-L3/instP-EPG-B'') = Inr (Some EPG_B) \<and>
   list_all2
     (\<lambda>item s. \<exists>obj a. item ''l3extSubnet'' = Some obj \<and> obj ''attributes'' = Some a \<and>
        (a ''scope'' = None \<or> a ''scope'' = Some '''' \<longrightarrow> subnet_type s = ''ext'') \<and>
        (subnet_type s = ''exp'' \<longleftrightarrow>
           (\<exists>scope ps ss. a ''scope'' = Some scope \<and> scope = ps @ ''export-rtctrl'' @ ss)) \<and>
        (subnet_type s \<noteq> ''exp'' \<longrightarrow> subnet_type s = ''ext''))
     (records (fabric (children_url ''uni/tn-T1/out-L3/instP-EPG-B'' ''l3extSubnet'')))
     (subnets EPG_B) \<and>
   map subnet_type (subnets EPG_B) = [''exp'', ''ext'', ''ext'', ''ext'']"
proof -
  have hb: "str_in ''/out-'' ''uni/tn-T1/out-L3/instP-EPG-B''" by code_simp
  have eb: "fst (get_epg_info fabric ''uni/tn-T1/out-L3/instP-EPG-B'') = Inr (Some EPG_B)"
    by (simp add: fabric_EPG_B)
  have tb: "map subnet_type (subnets EPG_B) = [''exp'', ''ext'', ''ext'', ''ext'']"
    by (simp add: EPG_B_def)
  from external_subnet_scope [OF hb eb] hb eb tb show ?thesis by simp
qed

section \<open>Listing the tenants\<close>

lemma name_dn_Inr:
  "fst (name_dn cls item) = Inr v \<longleftrightarrow>
     (\<exists>obj a. item cls = Some obj \<and> obj ''attributes'' = Some a \<and>
        a ''name'' = Some (name v) \<and> a ''dn'' = Some (dn v))"
  by (cases v) (auto simp add: name_dn_def fst_bindM_Inr attribute_Inr)

lemma snd_name_dn [simp]: "snd (name_dn cls item) = []"
  by (simp add: name_dn_def snd_bindM_pure)

lemma get_tenant_vrfs_Inr:
  "fst (get_tenant_vrfs api d) = Inr vs \<longleftrightarrow>
     list_all2 (\<lambda>item v. fst (name_dn ''fvCtx'' item) = Inr v)
       (records (api (children_url d ''fvCtx''))) vs"
  by (auto simp add: get_tenant_vrfs_def bindM_session_get records_def mapM_Inr
      empty_object_def imdata_or_empty_def split: option.splits)

lemma snd_get_tenant_vrfs: "snd (get_tenant_vrfs api d) = [Get (children_url d ''fvCtx'')]"
  by (simp add: get_tenant_vrfs_def bindM_session_get snd_mapM_pure split: option.splits)

lemma get_contracts_Inr:
  "fst (get_contracts api d) = Inr cs \<longleftrightarrow>
     list_all2 (\<lambda>item c. fst (name_dn ''vzBrCP'' item) = Inr c)
       (records (api (children_url d ''vzBrCP''))) cs"
  by (auto simp add: get_contracts_def bindM_session_get records_def mapM_Inr
      empty_object_def imdata_or_empty_def split: option.splits)

lemma snd_get_contracts: "snd (get_contracts api d) = [Get (children_url d ''vzBrCP'')]"
  by (simp add: get_contracts_def bindM_session_get snd_mapM_pure split: option.splits)

lemma get_tenants_loop_Inr:
  "fst (get_tenants_loop api items acc) = Inr ts \<Longrightarrow>
     ts = acc @ List.map_filter (tenant_of api) items"
proof (induction items arbitrary: acc)
  case Nil
  then show ?case by (simp add: List.map_filter_def)
next
  case (Cons item rest)
  from Cons.prems obtain n where
    n: "fst (attribute item ''fvTenant'' ''name'') = Inr n"
    by (auto simp add: fst_bindM_Inr)
  show ?case
  proof (cases "n \<in> EXCLUDED_TENANTS")
    case True
    with Cons.prems n have "fst (get_tenants_loop api rest acc) = Inr ts"
      by (simp add: bindM_Inr)
    from Cons.IH [OF this] n True show ?thesis
      by (simp add: map_filter_Cons tenant_of_def)
  next
    case False
    with Cons.prems n obtain d vs where
      d: "fst (attribute item ''fvTenant'' ''dn'') = Inr d"
      and vs: "fst (get_tenant_vrfs api d) = Inr vs"
      and r: "fst (get_tenants_loop api rest (acc @ [\<lparr>name = n, dn = d, vrfs = vs\<rparr>])) = Inr ts"
      by (auto simp add: bindM_Inr fst_bindM_Inr)
    from Cons.IH [OF r] n False d vs show ?thesis
      by (simp add: map_filter_Cons tenant_of_def)
  qed
qed

lemma get_tenants_Inr:
  assumes "fst (get_tenants api) = Inr ts"
  shows "ts = sort_key name
           (List.map_filter (tenant_of api) (records (api ''/node/class/fvTenant.json'')))"
proof (cases "api ''/node/class/fvTenant.json''")
  case None
  with assms show ?thesis
    by (simp add: get_tenants_def bindM_session_get records_def List.map_filter_def)
next
  case (Some r)
  show ?thesis
  proof (cases "empty_object r")
    case True
    with Some assms show ?thesis
      by (simp add: get_tenants_def bindM_session_get records_def List.map_filter_def
          empty_object_def imdata_or_empty_def)
  next
    case False
    with Some assms obtain ts' where
      l: "fst (get_tenants_loop api (imdata_or_empty r) []) = Inr ts'" and "ts = sort_key name ts'"
      by (auto simp add: get_tenants_def bindM_session_get fst_bindM_Inr)
    with get_tenants_loop_Inr [OF l] Some show ?thesis
      by (simp add: records_def)
  qed
qed

lemma tenant_of_Some:
  "tenant_of api item = Some t \<Longrightarrow> name t \<notin> EXCLUDED_TENANTS"
  by (auto simp add: tenant_of_def split: sum.splits if_splits)

text \<open>
  C5. When \<^verbatim>\<open>get_tenants\<close> returns a list, no tenant of the list has a name in
  \<^verbatim>\<open>EXCLUDED_TENANTS\<close>, the names of the list are in ascending lexicographic order, and every
  record of the tenant class whose name is not excluded and whose VRF request returned no
  record (\<^verbatim>\<open>None\<close>, or no \<^verbatim>\<open>imdata\<close>, or an empty one) is in the list with the empty VRF
  list.
\<close>

theorem get_tenants_excluded_sorted:
  assumes "fst (get_tenants api) = Inr ts"
  shows "(\<forall>t \<in> set ts. name t \<notin> EXCLUDED_TENANTS) \<and>
         sorted (map name ts) \<and>
         (\<forall>item obj a n d.
            item \<in> set (records (api ''/node/class/fvTenant.json'')) \<and>
            item ''fvTenant'' = Some obj \<and> obj ''attributes'' = Some a \<and>
            a ''name'' = Some n \<and> a ''dn'' = Some d \<and> n \<notin> EXCLUDED_TENANTS \<and>
            records (api (children_url d ''fvCtx'')) = [] \<longrightarrow>
            \<lparr>name = n, dn = d, vrfs = []\<rparr> \<in> set ts)"
proof -
  note ts = get_tenants_Inr [OF assms]
  have excl: "\<forall>t \<in> set ts. name t \<notin> EXCLUDED_TENANTS"
    by (auto simp add: ts List.map_filter_def dest: tenant_of_Some)
  have srt: "sorted (map name ts)"
    by (simp add: ts)
  have mem: "\<lparr>name = n, dn = d, vrfs = []\<rparr> \<in> set ts"
    if "item \<in> set (records (api ''/node/class/fvTenant.json''))"
      and "item ''fvTenant'' = Some obj" and "obj ''attributes'' = Some a"
      and "a ''name'' = Some n" and "a ''dn'' = Some d" and "n \<notin> EXCLUDED_TENANTS"
      and "records (api (children_url d ''fvCtx'')) = []"
    for item obj a n d
  proof -
    from that have "fst (attribute item ''fvTenant'' ''name'') = Inr n"
      and "fst (attribute item ''fvTenant'' ''dn'') = Inr d"
      and "fst (get_tenant_vrfs api d) = Inr []"
      by (simp_all add: attribute_Inr get_tenant_vrfs_Inr)
    with that(6) have "tenant_of api item = Some \<lparr>name = n, dn = d, vrfs = []\<rparr>"
      by (simp add: tenant_of_def)
    with that(1) show ?thesis
      by (force simp add: ts List.map_filter_def)
  qed
  from excl srt mem show ?thesis by blast
qed

theorem get_tenants_excluded_sorted_witness:
  "fst (get_tenants fabric) =
     Inr [\<lparr>name = ''T0'', dn = ''uni/tn-T0'', vrfs = []\<rparr>,
          \<lparr>name = ''T1'', dn = ''uni/tn-T1'',
             vrfs = [\<lparr>name = ''V1'', dn = ''uni/tn-T1/ctx-V1''\<rparr>]\<rparr>] \<and>
   mk_item ''fvTenant'' [(''name'', ''infra''), (''dn'', ''uni/tn-infra'')]
     \<in> set (records (fabric ''/node/class/fvTenant.json'')) \<and>
   ''infra'' \<in> EXCLUDED_TENANTS \<and>
   ''infra'' \<notin> {''T0'', ''T1''} \<and>
   sorted [''T0'', ''T1''] \<and>
   mk_item ''fvTenant'' [(''name'', ''T0''), (''dn'', ''uni/tn-T0'')]
     \<in> set (records (fabric ''/node/class/fvTenant.json'')) \<and>
   ''T0'' \<notin> EXCLUDED_TENANTS \<and>
   records (fabric (children_url ''uni/tn-T0'' ''fvCtx'')) = [] \<and>
   \<lparr>name = ''T0'', dn = ''uni/tn-T0'', vrfs = []\<rparr>
     \<in> set [\<lparr>name = ''T0'', dn = ''uni/tn-T0'', vrfs = []\<rparr>,
             \<lparr>name = ''T1'', dn = ''uni/tn-T1'',
                vrfs = [\<lparr>name = ''V1'', dn = ''uni/tn-T1/ctx-V1''\<rparr>]\<rparr>]"
proof -
  have e: "fst (get_tenants fabric) =
     Inr [\<lparr>name = ''T0'', dn = ''uni/tn-T0'', vrfs = []\<rparr>,
          \<lparr>name = ''T1'', dn = ''uni/tn-T1'',
             vrfs = [\<lparr>name = ''V1'', dn = ''uni/tn-T1/ctx-V1''\<rparr>]\<rparr>]"
    by (simp add: fabric_get_tenants)
  have x: "''T0'' \<notin> EXCLUDED_TENANTS" "''infra'' \<in> EXCLUDED_TENANTS"
    by (simp_all add: EXCLUDED_TENANTS_def)
  have v: "records (fabric (children_url ''uni/tn-T0'' ''fvCtx'')) = []"
    by (simp add: fabric_T0_vrfs records_def)
  from get_tenants_excluded_sorted [OF e] e x v
  show ?thesis by (simp add: fabric_tenant_records)
qed

lemma get_tenant_vrfs_agree:
  "api' (children_url d ''fvCtx'') = api (children_url d ''fvCtx'') \<Longrightarrow>
     get_tenant_vrfs api' d = get_tenant_vrfs api d"
  by (simp add: get_tenant_vrfs_def session_get_def)

lemma get_tenants_loop_agree:
  "(\<forall>u. Get u \<in> set (snd (get_tenants_loop api items acc)) \<longrightarrow> api' u = api u) \<Longrightarrow>
     get_tenants_loop api' items acc = get_tenants_loop api items acc"
proof (induction items arbitrary: acc)
  case Nil
  show ?case by simp
next
  case (Cons item rest)
  show ?case
  proof (cases "fst (attribute item ''fvTenant'' ''name'')")
    case (Inl e)
    then show ?thesis by (simp add: bindM_Inl)
  next
    case n: (Inr n)
    show ?thesis
    proof (cases "n \<in> EXCLUDED_TENANTS")
      case True
      with n Cons.prems
      have "\<forall>u. Get u \<in> set (snd (get_tenants_loop api rest acc)) \<longrightarrow> api' u = api u"
        by (simp add: bindM_Inr)
      from Cons.IH [OF this] n True show ?thesis by (simp add: bindM_Inr)
    next
      case False
      show ?thesis
      proof (cases "fst (attribute item ''fvTenant'' ''dn'')")
        case (Inl e)
        with n False show ?thesis by (simp add: bindM_Inr bindM_Inl)
      next
        case d: (Inr d)
        let ?k = "\<lambda>a vs. get_tenants_loop a rest (acc @ [\<lparr>name = n, dn = d, vrfs = vs\<rparr>])"
        have whole: "get_tenants_loop a (item # rest) acc = bindM (get_tenant_vrfs a d) (?k a)"
          for a
          using n False d by (simp add: bindM_Inr)
        from Cons.prems
        have tr: "\<forall>u. Get u \<in> set (snd (bindM (get_tenant_vrfs api d) (?k api))) \<longrightarrow> api' u = api u"
          by (simp only: whole)
        then have "api' (children_url d ''fvCtx'') = api (children_url d ''fvCtx'')"
          by (auto simp add: snd_bindM snd_get_tenant_vrfs split: sum.splits)
        then have v: "get_tenant_vrfs api' d = get_tenant_vrfs api d"
          by (rule get_tenant_vrfs_agree)
        have "bindM (get_tenant_vrfs api' d) (?k api') = bindM (get_tenant_vrfs api d) (?k api)"
        proof (rule bindM_cong_run [OF v])
          fix vs
          assume ok: "fst (get_tenant_vrfs api d) = Inr vs"
          with tr have "\<forall>u. Get u \<in> set (snd (?k api vs)) \<longrightarrow> api' u = api u"
            by (simp add: snd_bindM)
          then show "?k api' vs = ?k api vs" by (rule Cons.IH)
        qed
        then show ?thesis by (simp only: whole)
      qed
    qed
  qed
qed

text \<open>
  C9. Let a second run of \<^verbatim>\<open>get_tenants\<close> receive, for every request the first run sent,
  the response the first run received. Then the second run sends the same requests and
  returns the same list, element for element (or raises the same exception).
\<close>

theorem get_tenants_idempotent:
  assumes "\<forall>u. Get u \<in> set (snd (get_tenants api)) \<longrightarrow> api' u = api u"
  shows "get_tenants api' = get_tenants api"
proof -
  let ?u = "''/node/class/fvTenant.json''"
  have first: "Get ?u \<in> set (snd (get_tenants api))"
    by (simp add: get_tenants_def bindM_session_get)
  with assms have same: "api' ?u = api ?u" by blast
  show ?thesis
  proof (cases "api ?u")
    case None
    with same show ?thesis by (simp add: get_tenants_def bindM_session_get)
  next
    case (Some r)
    show ?thesis
    proof (cases "empty_object r")
      case True
      with Some same show ?thesis by (simp add: get_tenants_def bindM_session_get)
    next
      case False
      from assms Some False
      have "\<forall>u. Get u \<in> set (snd (get_tenants_loop api (imdata_or_empty r) [])) \<longrightarrow> api' u = api u"
        by (auto simp add: get_tenants_def bindM_session_get snd_bindM split: sum.splits)
      from get_tenants_loop_agree [OF this] Some same False show ?thesis
        by (simp add: get_tenants_def bindM_session_get)
    qed
  qed
qed

theorem get_tenants_idempotent_witness:
  "snd (get_tenants fabric) =
     [Get ''/node/class/fvTenant.json'',
      Get (children_url ''uni/tn-T1'' ''fvCtx''),
      Get (children_url ''uni/tn-T0'' ''fvCtx'')] \<and>
   fabric_changed ''/node/class/fvTenant.json'' = fabric ''/node/class/fvTenant.json'' \<and>
   fabric_changed (children_url ''uni/tn-T1'' ''fvCtx'') = fabric (children_url ''uni/tn-T1'' ''fvCtx'') \<and>
   fabric_changed (children_url ''uni/tn-T0'' ''fvCtx'') = fabric (children_url ''uni/tn-T0'' ''fvCtx'') \<and>
   fabric_changed (children_url ''uni/tn-infra'' ''fvCtx'') \<noteq> fabric (children_url ''uni/tn-infra'' ''fvCtx'') \<and>
   get_tenants fabric_changed = get_tenants fabric"
proof -
  have tr: "snd (get_tenants fabric) =
     [Get ''/node/class/fvTenant.json'',
      Get (children_url ''uni/tn-T1'' ''fvCtx''),
      Get (children_url ''uni/tn-T0'' ''fvCtx'')]"
    by (simp add: fabric_get_tenants children_url_def)
  have same:
    "fabric_changed ''/node/class/fvTenant.json'' = fabric ''/node/class/fvTenant.json''"
    "fabric_changed (children_url ''uni/tn-T1'' ''fvCtx'') = fabric (children_url ''uni/tn-T1'' ''fvCtx'')"
    "fabric_changed (children_url ''uni/tn-T0'' ''fvCtx'') = fabric (children_url ''uni/tn-T0'' ''fvCtx'')"
    by (simp_all add: fabric_changed_def children_url_def)
  have diff: "fabric_changed (children_url ''uni/tn-infra'' ''fvCtx'')
                \<noteq> fabric (children_url ''uni/tn-infra'' ''fvCtx'')"
  proof -
    have "fabric (children_url ''uni/tn-infra'' ''fvCtx'') = None"
      by (simp add: fabric_def children_url_def object_url_def)
    then show ?thesis by (simp add: fabric_changed_def mk_response_def)
  qed
  have "\<forall>u. Get u \<in> set (snd (get_tenants fabric)) \<longrightarrow> fabric_changed u = fabric u"
    using same by (auto simp add: tr)
  from get_tenants_idempotent [OF this] tr same diff show ?thesis by simp
qed

section \<open>The relationships of a contract\<close>

lemma relationships_loop_Inr:
  "fst (relationships_loop api items ps cs) = Inr (ps', cs') \<Longrightarrow>
     ps' = ps @ List.map_filter (provider_of api) items \<and>
     cs' = cs @ List.map_filter (consumer_of api) items"
proof (induction items arbitrary: ps cs)
  case Nil
  then show ?case by simp
next
  case (Cons item rest)
  consider (prov) "item ''vzRtProv'' \<noteq> None"
    | (cons) "item ''vzRtProv'' = None" "item ''vzRtCons'' \<noteq> None"
    | (other) "item ''vzRtProv'' = None" "item ''vzRtCons'' = None"
    by blast
  then show ?case
  proof cases
    case prov
    with Cons.prems obtain t r where
      t: "fst (attribute item ''vzRtProv'' ''tDn'') = Inr t"
      and r: "fst (get_epg_info api t) = Inr r"
      and k: "fst (case r of Some e \<Rightarrow> relationships_loop api rest (ps @ [e]) cs
                     | None \<Rightarrow> relationships_loop api rest ps cs) = Inr (ps', cs')"
      by (auto simp add: fst_bindM_Inr)
    from prov t r have p: "provider_of api item = r" "consumer_of api item = None"
      by (auto simp add: provider_of_def consumer_of_def resolved_def)
    show ?thesis
    proof (cases r)
      case None
      with k have "fst (relationships_loop api rest ps cs) = Inr (ps', cs')" by simp
      from Cons.IH [OF this] p None show ?thesis by (simp add: map_filter_Cons)
    next
      case (Some e)
      with k have "fst (relationships_loop api rest (ps @ [e]) cs) = Inr (ps', cs')" by simp
      from Cons.IH [OF this] p Some show ?thesis by (simp add: map_filter_Cons)
    qed
  next
    case cons
    with Cons.prems obtain t r where
      t: "fst (attribute item ''vzRtCons'' ''tDn'') = Inr t"
      and r: "fst (get_epg_info api t) = Inr r"
      and k: "fst (case r of Some e \<Rightarrow> relationships_loop api rest ps (cs @ [e])
                     | None \<Rightarrow> relationships_loop api rest ps cs) = Inr (ps', cs')"
      by (auto simp add: fst_bindM_Inr)
    from cons t r have p: "provider_of api item = None" "consumer_of api item = r"
      by (auto simp add: provider_of_def consumer_of_def resolved_def)
    show ?thesis
    proof (cases r)
      case None
      with k have "fst (relationships_loop api rest ps cs) = Inr (ps', cs')" by simp
      from Cons.IH [OF this] p None show ?thesis by (simp add: map_filter_Cons)
    next
      case (Some e)
      with k have "fst (relationships_loop api rest ps (cs @ [e])) = Inr (ps', cs')" by simp
      from Cons.IH [OF this] p Some show ?thesis by (simp add: map_filter_Cons)
    qed
  next
    case other
    with Cons.prems have "fst (relationships_loop api rest ps cs) = Inr (ps', cs')" by simp
    from Cons.IH [OF this] other show ?thesis
      by (simp add: map_filter_Cons provider_of_def consumer_of_def)
  qed
qed

lemma relationships_loop_drop:
  assumes "cls = ''vzRtProv'' \<or> cls = ''vzRtCons'' \<and> r ''vzRtProv'' = None"
    and "fst (attribute r cls ''tDn'') = Inr t"
    and "records (api (object_url t)) = []"
  shows "fst (relationships_loop api (xs @ r # ys) ps cs)
           = fst (relationships_loop api (xs @ ys) ps cs)"
proof (induction xs arbitrary: ps cs)
  case Nil
  from assms(2) have k: "r cls \<noteq> None" by (auto simp add: attribute_Inr)
  from assms(3) have n: "fst (get_epg_info api t) = Inr None" by (rule get_epg_info_no_records)
  from assms(1) show ?case
  proof
    assume "cls = ''vzRtProv''"
    with k assms(2) n show ?thesis by (simp add: bindM_Inr)
  next
    assume "cls = ''vzRtCons'' \<and> r ''vzRtProv'' = None"
    with k assms(2) n show ?thesis by (simp add: bindM_Inr)
  qed
next
  case (Cons x xs)
  show ?case
    by (auto simp add: Cons.IH intro!: fst_bindM_cong split: option.splits)
qed

text \<open>
  C4. Let the relation listing of a contract be \<open>xs @ r # ys\<close>, where \<open>r\<close> is a provider or a
  consumer relation and the request for the object of its target path returns no record
  (\<^verbatim>\<open>None\<close>, or no \<^verbatim>\<open>imdata\<close>, or an empty one). Then \<^verbatim>\<open>get_contract_relationships\<close> returns what
  the loop returns on the listing \<open>xs @ ys\<close> without that relation; and when it returns two
  lists, the providers are the EPGs that the provider relations of \<open>xs @ ys\<close> resolve to, and
  the consumers those that its consumer relations resolve to, each in the order of the
  listing and with nothing else in the list.
\<close>

theorem relationships_drop_unresolved:
  assumes "records (api (children_url contract_dn ''vzRtProv,vzRtCons'')) = xs @ r # ys"
    and "cls = ''vzRtProv'' \<or> cls = ''vzRtCons'' \<and> r ''vzRtProv'' = None"
    and "r cls = Some obj" and "obj ''attributes'' = Some a" and "a ''tDn'' = Some target_dn"
    and "records (api (object_url target_dn)) = []"
  shows "fst (get_contract_relationships api contract_dn)
           = fst (relationships_loop api (xs @ ys) [] []) \<and>
         (\<forall>ps cs. fst (get_contract_relationships api contract_dn) = Inr (ps, cs) \<longrightarrow>
            ps = List.map_filter (provider_of api) (xs @ ys) \<and>
            cs = List.map_filter (consumer_of api) (xs @ ys))"
proof -
  from assms(1) obtain resp where
    resp: "api (children_url contract_dn ''vzRtProv,vzRtCons'') = Some resp"
      "imdata_or_empty resp = xs @ r # ys"
    by (auto simp add: records_def split: option.splits)
  then have ne: "\<not> empty_object resp"
    by (auto simp add: empty_object_def imdata_or_empty_def)
  from resp ne have run: "get_contract_relationships api contract_dn
      = (fst (relationships_loop api (xs @ r # ys) [] []),
         Get (children_url contract_dn ''vzRtProv,vzRtCons'')
           # snd (relationships_loop api (xs @ r # ys) [] []))"
    by (simp add: get_contract_relationships_def bindM_session_get)
  from assms(3-5) have t: "fst (attribute r cls ''tDn'') = Inr target_dn"
    by (simp add: attribute_Inr)
  from run relationships_loop_drop [of cls r target_dn api xs ys "[]" "[]"] assms(2) t assms(6)
  have eq: "fst (get_contract_relationships api contract_dn)
              = fst (relationships_loop api (xs @ ys) [] [])"
    by simp
  have "ps = List.map_filter (provider_of api) (xs @ ys) \<and>
        cs = List.map_filter (consumer_of api) (xs @ ys)"
    if "fst (get_contract_relationships api contract_dn) = Inr (ps, cs)" for ps cs
    using relationships_loop_Inr [of api "xs @ ys" "[]" "[]" ps cs] that eq by simp
  with eq show ?thesis by blast
qed

theorem relationships_drop_unresolved_witness:
  "records (fabric (children_url ''uni/tn-T1/brc-C1'' ''vzRtProv,vzRtCons'')) =
     [] @ mk_item ''vzRtProv'' [(''tDn'', ''uni/tn-T1/ap-A/epg-GONE'')]
        # [mk_item ''vzRtCons'' [(''tDn'', ''uni/tn-T1/out-L3/instP-EPG-B'')],
           mk_item ''vzRtProv'' [(''tDn'', ''uni/tn-T1/ap-A/epg-EPG-A'')]] \<and>
   mk_item ''vzRtProv'' [(''tDn'', ''uni/tn-T1/ap-A/epg-GONE'')] ''vzRtProv''
     = Some [''attributes'' \<mapsto> map_of [(''tDn'', ''uni/tn-T1/ap-A/epg-GONE'')]] \<and>
   map_of [(''tDn'', ''uni/tn-T1/ap-A/epg-GONE'')] ''tDn'' = Some ''uni/tn-T1/ap-A/epg-GONE'' \<and>
   records (fabric (object_url ''uni/tn-T1/ap-A/epg-GONE'')) = [] \<and>
   fst (get_contract_relationships fabric ''uni/tn-T1/brc-C1'') = Inr ([EPG_A], [EPG_B]) \<and>
   fst (relationships_loop fabric
          [mk_item ''vzRtCons'' [(''tDn'', ''uni/tn-T1/out-L3/instP-EPG-B'')],
           mk_item ''vzRtProv'' [(''tDn'', ''uni/tn-T1/ap-A/epg-EPG-A'')]] [] [])
     = Inr ([EPG_A], [EPG_B]) \<and>
   List.map_filter (provider_of fabric)
     [mk_item ''vzRtCons'' [(''tDn'', ''uni/tn-T1/out-L3/instP-EPG-B'')],
      mk_item ''vzRtProv'' [(''tDn'', ''uni/tn-T1/ap-A/epg-EPG-A'')]] = [EPG_A] \<and>
   List.map_filter (consumer_of fabric)
     [mk_item ''vzRtCons'' [(''tDn'', ''uni/tn-T1/out-L3/instP-EPG-B'')],
      mk_item ''vzRtProv'' [(''tDn'', ''uni/tn-T1/ap-A/epg-EPG-A'')]] = [EPG_B]"
proof -
  let ?r = "mk_item ''vzRtProv'' [(''tDn'', ''uni/tn-T1/ap-A/epg-GONE'')]"
  let ?ys = "[mk_item ''vzRtCons'' [(''tDn'', ''uni/tn-T1/out-L3/instP-EPG-B'')],
              mk_item ''vzRtProv'' [(''tDn'', ''uni/tn-T1/ap-A/epg-EPG-A'')]]"
  have c: "''vzRtProv'' = ''vzRtProv'' \<or> ''vzRtProv'' = ''vzRtCons'' \<and> ?r ''vzRtProv'' = None"
    by simp
  have o: "?r ''vzRtProv'' = Some [''attributes'' \<mapsto> map_of [(''tDn'', ''uni/tn-T1/ap-A/epg-GONE'')]]"
    by (simp add: mk_item_def)
  have a: "[''attributes'' \<mapsto> map_of [(''tDn'', ''uni/tn-T1/ap-A/epg-GONE'')]] ''attributes''
             = Some (map_of [(''tDn'', ''uni/tn-T1/ap-A/epg-GONE'')])"
    by simp
  have t: "map_of [(''tDn'', ''uni/tn-T1/ap-A/epg-GONE'')] ''tDn'' = Some ''uni/tn-T1/ap-A/epg-GONE''"
    by simp
  note inst = relationships_drop_unresolved
    [of fabric "''uni/tn-T1/brc-C1''" "[]" ?r ?ys "''vzRtProv''", OF fabric_C1_records c o a t
      fabric_GONE_records, unfolded append_Nil]
  have l: "fst (relationships_loop fabric ?ys [] []) = Inr ([EPG_A], [EPG_B])"
    by (rule trans [OF sym [OF inst [THEN conjunct1]] fabric_C1_relationships])
  note m = inst [THEN conjunct2, rule_format, OF fabric_C1_relationships]
  note m1 = m [THEN conjunct1, symmetric] and m2 = m [THEN conjunct2, symmetric]
  show ?thesis
    by (intro conjI)
       (rule fabric_C1_records o t fabric_GONE_records fabric_C1_relationships l m1 m2)+
qed

section \<open>The batch report\<close>

lemma written_get_external_subnets [simp]: "written (snd (get_external_subnets api d)) = []"
  by (simp add: snd_get_external_subnets)

lemma written_get_internal_subnets [simp]: "written (snd (get_internal_subnets api d)) = []"
  by (auto simp add: get_internal_subnets_def snd_mapM_pure
      intro!: written_bindM split: option.splits)

lemma written_get_epg_info [simp]: "written (snd (get_epg_info api d)) = []"
  by (auto simp add: get_epg_info_def get_external_epg_info_def get_internal_epg_info_def
      intro!: written_bindM split: option.splits)

lemma written_relationships_loop [simp]:
  "written (snd (relationships_loop api items ps cs)) = []"
  by (induction items arbitrary: ps cs)
     (auto intro!: written_bindM split: option.splits)

lemma written_get_contract_relationships [simp]:
  "written (snd (get_contract_relationships api d)) = []"
  by (auto simp add: get_contract_relationships_def intro!: written_bindM split: option.splits)

lemma written_get_contracts [simp]: "written (snd (get_contracts api d)) = []"
  by (simp add: snd_get_contracts)

lemma written_get_tenant_vrfs [simp]: "written (snd (get_tenant_vrfs api d)) = []"
  by (simp add: snd_get_tenant_vrfs)

lemma written_get_tenants_loop [simp]: "written (snd (get_tenants_loop api items acc)) = []"
  by (induction items arbitrary: acc) (auto intro!: written_bindM)

lemma written_get_tenants [simp]: "written (snd (get_tenants api)) = []"
  by (auto simp add: get_tenants_def intro!: written_bindM split: option.splits)

lemma write_contracts_loop_Inr:
  "fst (write_contracts_loop api cs st) = Inr st' \<Longrightarrow>
     written (snd (write_contracts_loop api cs st)) = map (details api) (filter (reported api) cs) \<and>
     stat_contracts st' = stat_contracts st \<and>
     stat_providers st' = stat_providers st
       + sum_list (map (\<lambda>c. length (fst (relationships_of api c))) (filter (reported api) cs)) \<and>
     stat_consumers st' = stat_consumers st
       + sum_list (map (\<lambda>c. length (snd (relationships_of api c))) (filter (reported api) cs))"
proof (induction cs arbitrary: st)
  case Nil
  then show ?case by simp
next
  case (Cons c rest)
  from Cons.prems obtain ps qs where
    rel: "fst (get_contract_relationships api (dn c)) = Inr (ps, qs)"
    by (auto simp add: fst_bindM_Inr)
  then have ro: "relationships_of api c = (ps, qs)"
    by (simp add: relationships_of_def)
  show ?case
  proof (cases "ps = [] \<and> qs = []")
    case True
    with rel have whole: "write_contracts_loop api (c # rest) st
        = (fst (write_contracts_loop api rest st),
           snd (get_contract_relationships api (dn c)) @ snd (write_contracts_loop api rest st))"
      by (simp add: bindM_Inr)
    with Cons.prems have "fst (write_contracts_loop api rest st) = Inr st'" by simp
    from Cons.IH [OF this] whole ro True show ?thesis
      by (simp add: reported_def)
  next
    case False
    let ?st = "st\<lparr>stat_providers := stat_providers st + length ps,
                    stat_consumers := stat_consumers st + length qs\<rparr>"
    from rel False have whole: "write_contracts_loop api (c # rest) st
        = (fst (write_contracts_loop api rest ?st),
           snd (get_contract_relationships api (dn c))
             @ Write (ContractDetails c ps qs) # snd (write_contracts_loop api rest ?st))"
      by (simp add: bindM_Inr bindM_f_write Let_def)
    with Cons.prems have "fst (write_contracts_loop api rest ?st) = Inr st'" by simp
    from Cons.IH [OF this] whole ro False show ?thesis
      by (simp add: reported_def details_def)
  qed
qed

lemma write_tenant_section_Inr:
  assumes "fst (write_tenant_section api t contracts st) = Inr st'"
  shows "written (snd (write_tenant_section api t contracts st))
           = TenantHeader t # map (details api) (filter (reported api) (sort_key name contracts)) \<and>
         stat_contracts st' = stat_contracts st \<and>
         stat_providers st' = stat_providers st
           + sum_list (map (\<lambda>c. length (fst (relationships_of api c)))
               (filter (reported api) (sort_key name contracts))) \<and>
         stat_consumers st' = stat_consumers st
           + sum_list (map (\<lambda>c. length (snd (relationships_of api c)))
               (filter (reported api) (sort_key name contracts)))"
proof -
  have whole: "write_tenant_section api t contracts st
      = (fst (write_contracts_loop api (sort_key name contracts) st),
         Write (TenantHeader t) # snd (write_contracts_loop api (sort_key name contracts) st))"
    by (simp add: write_tenant_section_def bindM_f_write)
  with assms have "fst (write_contracts_loop api (sort_key name contracts) st) = Inr st'"
    by simp
  from write_contracts_loop_Inr [OF this] whole show ?thesis by simp
qed

lemma tenants_loop_Inr:
  "fst (tenants_loop api ts st) = Inr st' \<Longrightarrow>
     written (snd (tenants_loop api ts st)) = concat (map (tenant_section api) ts) \<and>
     stat_contracts st' = stat_contracts st + length (all_contracts api ts) \<and>
     stat_providers st' = stat_providers st
       + sum_list (map (\<lambda>c. length (fst (relationships_of api c)))
           (filter (reported api) (all_contracts api ts))) \<and>
     stat_consumers st' = stat_consumers st
       + sum_list (map (\<lambda>c. length (snd (relationships_of api c)))
           (filter (reported api) (all_contracts api ts)))"
proof (induction ts arbitrary: st)
  case Nil
  then show ?case by (simp add: all_contracts_def)
next
  case (Cons t rest)
  from Cons.prems obtain contracts where
    cs: "fst (get_contracts api (dn t)) = Inr contracts"
    by (auto simp add: fst_bindM_Inr)
  then have co: "contracts_of api t = contracts" by (simp add: contracts_of_def)
  show ?case
  proof (cases "contracts = []")
    case True
    with cs have whole: "tenants_loop api (t # rest) st
        = (fst (tenants_loop api rest st),
           snd (get_contracts api (dn t)) @ snd (tenants_loop api rest st))"
      by (simp add: bindM_Inr)
    with Cons.prems have "fst (tenants_loop api rest st) = Inr st'" by simp
    from Cons.IH [OF this] whole co True show ?thesis
      by (simp add: tenant_section_def all_contracts_def)
  next
    case False
    let ?st = "st\<lparr>stat_contracts := stat_contracts st + length contracts\<rparr>"
    from cs False have whole: "tenants_loop api (t # rest) st
        = bindM (get_contracts api (dn t)) (\<lambda>_.
          bindM (write_tenant_section api t contracts ?st) (\<lambda>st'. tenants_loop api rest st'))"
      by (simp add: bindM_alt)
    with Cons.prems cs False obtain st1 where
      sec: "fst (write_tenant_section api t contracts ?st) = Inr st1"
      and r: "fst (tenants_loop api rest st1) = Inr st'"
      by (auto simp add: fst_bindM_Inr)
    from whole cs sec have tr: "snd (tenants_loop api (t # rest) st)
        = snd (get_contracts api (dn t)) @ snd (write_tenant_section api t contracts ?st)
            @ snd (tenants_loop api rest st1)"
      by (simp add: bindM_Inr)
    from write_tenant_section_Inr [OF sec] Cons.IH [OF r] tr co False show ?thesis
      by (simp add: tenant_section_def all_contracts_def)
  qed
qed

lemma tenants_with_contracts_Inr:
  "fst (tenants_with_contracts api ts) = Inr r \<Longrightarrow>
     r = filter (\<lambda>t. contracts_of api t \<noteq> []) ts \<and>
     snd (tenants_with_contracts api ts) = map (\<lambda>t. Get (children_url (dn t) ''vzBrCP'')) ts"
proof (induction ts arbitrary: r)
  case Nil
  then show ?case by simp
next
  case (Cons t rest)
  from Cons.prems obtain contracts r' where
    cs: "fst (get_contracts api (dn t)) = Inr contracts"
    and r': "fst (tenants_with_contracts api rest) = Inr r'"
    and r: "r = (if contracts \<noteq> [] then t # r' else r')"
    by (auto simp add: fst_bindM_Inr)
  from cs have co: "contracts_of api t = contracts" by (simp add: contracts_of_def)
  from cs r' have "snd (tenants_with_contracts api (t # rest))
      = snd (get_contracts api (dn t)) @ snd (tenants_with_contracts api rest)"
    by (simp add: bindM_Inr)
  with Cons.IH [OF r'] r co show ?case
    by (simp add: snd_get_contracts)
qed

lemma generate_complete_report_Inr:
  assumes "fst (generate_complete_report api) = Inr ()"
  obtains ts st r where
    "fst (get_tenants api) = Inr ts"
    "fst (tenants_loop api ts \<lparr>stat_contracts = 0, stat_providers = 0, stat_consumers = 0\<rparr>) = Inr st"
    "fst (tenants_with_contracts api ts) = Inr r"
    "snd (generate_complete_report api)
       = snd (get_tenants api) @ Write Header
           # snd (tenants_loop api ts \<lparr>stat_contracts = 0, stat_providers = 0, stat_consumers = 0\<rparr>)
           @ snd (tenants_with_contracts api ts) @ [Write (Summary (length r) st)]"
proof -
  let ?st0 = "\<lparr>stat_contracts = 0, stat_providers = 0, stat_consumers = 0\<rparr>"
  from assms obtain ts where ts: "fst (get_tenants api) = Inr ts"
    by (auto simp add: generate_complete_report_def fst_bindM_Inr)
  with assms obtain st where st: "fst (tenants_loop api ts ?st0) = Inr st"
    by (auto simp add: generate_complete_report_def bindM_Inr bindM_f_write fst_bindM_Inr)
  with assms ts obtain r where r: "fst (tenants_with_contracts api ts) = Inr r"
    by (auto simp add: generate_complete_report_def write_summary_def bindM_Inr bindM_f_write
        fst_bindM_Inr)
  from ts st r have "snd (generate_complete_report api)
       = snd (get_tenants api) @ Write Header # snd (tenants_loop api ts ?st0)
           @ snd (tenants_with_contracts api ts) @ [Write (Summary (length r) st)]"
    by (simp add: generate_complete_report_def write_summary_def bindM_Inr bindM_f_write
        f_write_def)
  with ts st r show ?thesis by (rule that)
qed

lemma details_not_empty:
  "reported api c \<Longrightarrow> details api c = ContractDetails c' ps qs \<Longrightarrow> ps \<noteq> [] \<or> qs \<noteq> []"
  by (cases "relationships_of api c") (auto simp add: reported_def details_def)

lemma tenant_section_details:
  assumes "ContractDetails c ps qs \<in> set (tenant_section api t)"
  shows "ps \<noteq> [] \<or> qs \<noteq> []"
proof -
  from assms obtain x where "reported api x" and "details api x = ContractDetails c ps qs"
    by (auto simp add: tenant_section_def split: if_splits)
  then show ?thesis by (rule details_not_empty)
qed

text \<open>
  C7. When the batch report completes, what it has written is the header, the sections of
  the tenants (for each tenant with contracts its header and the details of exactly those of
  its contracts that have a resolved provider or consumer) and the summary. No contract whose
  provider and consumer lists are both empty has an entry. The provider and consumer totals
  of the summary are the sums, over the contracts that have an entry, of the lengths of their
  own lists, so an omitted contract changes neither; the contract total is the number of all
  contracts of the tenants, the omitted ones included.
\<close>

theorem report_omits_empty_contracts:
  assumes "fst (generate_complete_report api) = Inr ()"
  shows "\<exists>ts n st.
     fst (get_tenants api) = Inr ts \<and>
     written (snd (generate_complete_report api))
       = Header # concat (map (tenant_section api) ts) @ [Summary n st] \<and>
     (\<forall>c ps qs. ContractDetails c ps qs \<in> set (written (snd (generate_complete_report api)))
        \<longrightarrow> ps \<noteq> [] \<or> qs \<noteq> []) \<and>
     stat_contracts st = length (all_contracts api ts) \<and>
     stat_providers st
       = sum_list (map (\<lambda>c. length (fst (relationships_of api c)))
           (filter (reported api) (all_contracts api ts))) \<and>
     stat_consumers st
       = sum_list (map (\<lambda>c. length (snd (relationships_of api c)))
           (filter (reported api) (all_contracts api ts)))"
proof -
  from assms obtain ts st r where
    ts: "fst (get_tenants api) = Inr ts"
    and st: "fst (tenants_loop api ts \<lparr>stat_contracts = 0, stat_providers = 0, stat_consumers = 0\<rparr>)
               = Inr st"
    and r: "fst (tenants_with_contracts api ts) = Inr r"
    and tr: "snd (generate_complete_report api)
       = snd (get_tenants api) @ Write Header
           # snd (tenants_loop api ts \<lparr>stat_contracts = 0, stat_providers = 0, stat_consumers = 0\<rparr>)
           @ snd (tenants_with_contracts api ts) @ [Write (Summary (length r) st)]"
    by (rule generate_complete_report_Inr)
  note loop = tenants_loop_Inr [OF st]
  from tenants_with_contracts_Inr [OF r]
  have re: "written (snd (tenants_with_contracts api ts)) = []"
    by (simp add: written_requests)
  from tr loop re have w: "written (snd (generate_complete_report api))
       = Header # concat (map (tenant_section api) ts) @ [Summary (length r) st]"
    by simp
  have om: "ps \<noteq> [] \<or> qs \<noteq> []"
    if "ContractDetails c ps qs \<in> set (written (snd (generate_complete_report api)))"
    for c ps qs
    using that by (auto simp add: w dest: tenant_section_details)
  from ts w om loop show ?thesis by auto
qed

theorem report_omits_empty_contracts_witness:
  "fst (generate_complete_report fabric) = Inr () \<and>
   (\<exists>ts n st.
     fst (get_tenants fabric) = Inr ts \<and>
     written (snd (generate_complete_report fabric))
       = Header # concat (map (tenant_section fabric) ts) @ [Summary n st] \<and>
     (\<forall>c ps qs. ContractDetails c ps qs \<in> set (written (snd (generate_complete_report fabric)))
        \<longrightarrow> ps \<noteq> [] \<or> qs \<noteq> []) \<and>
     stat_contracts st = length (all_contracts fabric ts) \<and>
     stat_providers st
       = sum_list (map (\<lambda>c. length (fst (relationships_of fabric c)))
           (filter (reported fabric) (all_contracts fabric ts))) \<and>
     stat_consumers st
       = sum_list (map (\<lambda>c. length (snd (relationships_of fabric c)))
           (filter (reported fabric) (all_contracts fabric ts)))) \<and>
   fst (get_contracts fabric (dn tenant_T0)) = Inr [contract_C9] \<and>
   fst (get_contracts fabric (dn tenant_T1)) = Inr [contract_C1, contract_C0] \<and>
   fst (get_contract_relationships fabric (dn contract_C9)) = Inr ([], []) \<and>
   fst (get_contract_relationships fabric (dn contract_C0)) = Inr ([], []) \<and>
   written (snd (generate_complete_report fabric))
     = [Header, TenantHeader tenant_T0, TenantHeader tenant_T1,
        ContractDetails contract_C1 [EPG_A] [EPG_B],
        Summary 2 \<lparr>stat_contracts = 3, stat_providers = 1, stat_consumers = 1\<rparr>]"
proof -
  have e: "fst (generate_complete_report fabric) = Inr ()"
    by (simp add: fabric_report)
  have w: "written (snd (generate_complete_report fabric))
     = [Header, TenantHeader tenant_T0, TenantHeader tenant_T1,
        ContractDetails contract_C1 [EPG_A] [EPG_B],
        Summary 2 \<lparr>stat_contracts = 3, stat_providers = 1, stat_consumers = 1\<rparr>]"
    by (simp add: fabric_report)
  show ?thesis
    by (intro conjI)
       (rule e report_omits_empty_contracts [OF e] fabric_empty_contracts w)+
qed

lemma generate_complete_report_changing_Inr:
  assumes "fst (generate_complete_report_changing api api') = Inr ()"
  obtains ts st r where
    "fst (get_tenants api) = Inr ts"
    "fst (tenants_loop api ts \<lparr>stat_contracts = 0, stat_providers = 0, stat_consumers = 0\<rparr>) = Inr st"
    "fst (tenants_with_contracts api' ts) = Inr r"
    "snd (generate_complete_report_changing api api')
       = snd (get_tenants api) @ Write Header
           # snd (tenants_loop api ts \<lparr>stat_contracts = 0, stat_providers = 0, stat_consumers = 0\<rparr>)
           @ snd (tenants_with_contracts api' ts) @ [Write (Summary (length r) st)]"
proof -
  let ?st0 = "\<lparr>stat_contracts = 0, stat_providers = 0, stat_consumers = 0\<rparr>"
  from assms obtain ts where ts: "fst (get_tenants api) = Inr ts"
    by (auto simp add: generate_complete_report_changing_def fst_bindM_Inr)
  with assms obtain st where st: "fst (tenants_loop api ts ?st0) = Inr st"
    by (auto simp add: generate_complete_report_changing_def bindM_Inr bindM_f_write fst_bindM_Inr)
  with assms ts obtain r where r: "fst (tenants_with_contracts api' ts) = Inr r"
    by (auto simp add: generate_complete_report_changing_def write_summary_def bindM_Inr
        bindM_f_write fst_bindM_Inr)
  from ts st r have "snd (generate_complete_report_changing api api')
       = snd (get_tenants api) @ Write Header # snd (tenants_loop api ts ?st0)
           @ snd (tenants_with_contracts api' ts) @ [Write (Summary (length r) st)]"
    by (simp add: generate_complete_report_changing_def write_summary_def bindM_Inr bindM_f_write
        f_write_def)
  with ts st r show ?thesis by (rule that)
qed

text \<open>
  C8. Let the controller answer the requests of \<^verbatim>\<open>_write_summary\<close> from \<open>api'\<close> and all earlier
  requests from \<open>api\<close>. When the batch report completes, its run is: the requests of
  \<^verbatim>\<open>get_tenants\<close>, the header, the main pass over the tenants, then one more request for the
  contracts of every tenant, in the order of the tenants, and last the summary. The figure of
  tenants analysed in the summary is the number of tenants whose contract list in the answers
  to that second round of requests is not empty: it follows \<open>api'\<close>, not what the main pass
  received, and what the contracts resolve to plays no part in it. With \<open>api' = api\<close> the run
  is \<^verbatim>\<open>generate_complete_report\<close>, and the figure counts every tenant that has a contract.
\<close>

theorem tenants_analyzed_refetched:
  assumes "fst (generate_complete_report_changing api api') = Inr ()"
  shows "generate_complete_report_changing api api = generate_complete_report api \<and>
    (\<exists>ts st.
       fst (get_tenants api) = Inr ts \<and>
       fst (tenants_loop api ts \<lparr>stat_contracts = 0, stat_providers = 0, stat_consumers = 0\<rparr>)
         = Inr st \<and>
       snd (generate_complete_report_changing api api')
         = snd (get_tenants api) @ Write Header
             # snd (tenants_loop api ts \<lparr>stat_contracts = 0, stat_providers = 0, stat_consumers = 0\<rparr>)
             @ map (\<lambda>t. Get (children_url (dn t) ''vzBrCP'')) ts
             @ [Write (Summary (length (filter (\<lambda>t. contracts_of api' t \<noteq> []) ts)) st)])"
proof
  show "generate_complete_report_changing api api = generate_complete_report api"
    by (simp add: generate_complete_report_changing_def generate_complete_report_def)
next
  from assms obtain ts st r where
    ts: "fst (get_tenants api) = Inr ts"
    and st: "fst (tenants_loop api ts \<lparr>stat_contracts = 0, stat_providers = 0, stat_consumers = 0\<rparr>)
               = Inr st"
    and r: "fst (tenants_with_contracts api' ts) = Inr r"
    and tr: "snd (generate_complete_report_changing api api')
       = snd (get_tenants api) @ Write Header
           # snd (tenants_loop api ts \<lparr>stat_contracts = 0, stat_providers = 0, stat_consumers = 0\<rparr>)
           @ snd (tenants_with_contracts api' ts) @ [Write (Summary (length r) st)]"
    by (rule generate_complete_report_changing_Inr)
  from tenants_with_contracts_Inr [OF r] tr
  have "snd (generate_complete_report_changing api api')
       = snd (get_tenants api) @ Write Header
           # snd (tenants_loop api ts \<lparr>stat_contracts = 0, stat_providers = 0, stat_consumers = 0\<rparr>)
           @ map (\<lambda>t. Get (children_url (dn t) ''vzBrCP'')) ts
           @ [Write (Summary (length (filter (\<lambda>t. contracts_of api' t \<noteq> []) ts)) st)]"
    by simp
  with ts st show "\<exists>ts st.
       fst (get_tenants api) = Inr ts \<and>
       fst (tenants_loop api ts \<lparr>stat_contracts = 0, stat_providers = 0, stat_consumers = 0\<rparr>)
         = Inr st \<and>
       snd (generate_complete_report_changing api api')
         = snd (get_tenants api) @ Write Header
             # snd (tenants_loop api ts \<lparr>stat_contracts = 0, stat_providers = 0, stat_consumers = 0\<rparr>)
             @ map (\<lambda>t. Get (children_url (dn t) ''vzBrCP'')) ts
             @ [Write (Summary (length (filter (\<lambda>t. contracts_of api' t \<noteq> []) ts)) st)]"
    by blast
qed

theorem tenants_analyzed_refetched_witness:
  "fst (generate_complete_report_changing fabric fabric_later) = Inr () \<and>
   generate_complete_report_changing fabric fabric = generate_complete_report fabric \<and>
   (\<exists>ts st.
      fst (get_tenants fabric) = Inr ts \<and>
      fst (tenants_loop fabric ts \<lparr>stat_contracts = 0, stat_providers = 0, stat_consumers = 0\<rparr>)
        = Inr st \<and>
      snd (generate_complete_report_changing fabric fabric_later)
        = snd (get_tenants fabric) @ Write Header
            # snd (tenants_loop fabric ts \<lparr>stat_contracts = 0, stat_providers = 0, stat_consumers = 0\<rparr>)
            @ map (\<lambda>t. Get (children_url (dn t) ''vzBrCP'')) ts
            @ [Write (Summary (length (filter (\<lambda>t. contracts_of fabric_later t \<noteq> []) ts)) st)]) \<and>
   fst (get_tenants fabric) = Inr [tenant_T0, tenant_T1] \<and>
   fst (get_contracts fabric (dn tenant_T0)) = Inr [contract_C9] \<and>
   fst (get_contract_relationships fabric (dn contract_C9)) = Inr ([], []) \<and>
   fst (get_contracts fabric_later (dn tenant_T0)) = Inr [] \<and>
   fst (get_contracts fabric_later (dn tenant_T1)) = Inr [contract_C1, contract_C0] \<and>
   written (snd (generate_complete_report_changing fabric fabric_later))
     = [Header, TenantHeader tenant_T0, TenantHeader tenant_T1,
        ContractDetails contract_C1 [EPG_A] [EPG_B],
        Summary 1 \<lparr>stat_contracts = 3, stat_providers = 1, stat_consumers = 1\<rparr>] \<and>
   written (snd (generate_complete_report fabric))
     = [Header, TenantHeader tenant_T0, TenantHeader tenant_T1,
        ContractDetails contract_C1 [EPG_A] [EPG_B],
        Summary 2 \<lparr>stat_contracts = 3, stat_providers = 1, stat_consumers = 1\<rparr>] \<and>
   drop 18 (snd (generate_complete_report_changing fabric fabric_later))
     = [Get ''/node/mo/uni/tn-T0.json?query-target=children&target-subtree-class=vzBrCP'',
        Get ''/node/mo/uni/tn-T1.json?query-target=children&target-subtree-class=vzBrCP'',
        Write (Summary 1 \<lparr>stat_contracts = 3, stat_providers = 1, stat_consumers = 1\<rparr>)]"
proof -
  note e = fabric_later_report(1)
  have t: "fst (get_tenants fabric) = Inr [tenant_T0, tenant_T1]"
    by (simp add: fabric_get_tenants tenant_T0_def tenant_T1_def)
  have w: "written (snd (generate_complete_report fabric))
     = [Header, TenantHeader tenant_T0, TenantHeader tenant_T1,
        ContractDetails contract_C1 [EPG_A] [EPG_B],
        Summary 2 \<lparr>stat_contracts = 3, stat_providers = 1, stat_consumers = 1\<rparr>]"
    by (simp add: fabric_report)
  note same = tenants_analyzed_refetched [OF e, THEN conjunct1]
    and run = tenants_analyzed_refetched [OF e, THEN conjunct2]
  show ?thesis
    by (intro conjI)
       (rule e same run t fabric_empty_contracts fabric_later_contracts fabric_later_report w)+
qed

end
